theory Spec2Isabelle
  imports Complex_Main
begin

section \<open>Numbers and the Math library\<close>

text \<open>
  Every JavaScript number of the two calculators is modelled as a \<^typ>\<open>real\<close>: the
  arithmetic is the exact one, without the rounding of IEEE doubles and without NaN
  or the infinities. The comparisons of the source (\<^verbatim>\<open>alt > h_b[6]\<close>,
  \<^verbatim>\<open>alt < h_b[i]\<close>, \<^verbatim>\<open>Math.abs(lb) < 1.0e-6\<close>) are kept as they are written.
  \<^verbatim>\<open>Math.sin\<close>, \<^verbatim>\<open>Math.cos\<close>, \<^verbatim>\<open>Math.exp\<close>, \<^verbatim>\<open>Math.atan\<close> and \<^verbatim>\<open>Math.abs\<close>
  are \<^const>\<open>sin\<close>, \<^const>\<open>cos\<close>, \<^const>\<open>exp\<close>, \<^const>\<open>arctan\<close> and \<^const>\<open>abs\<close>.
  \<^verbatim>\<open>Math.sqrt\<close> is \<^const>\<open>sqrt\<close> and \<^verbatim>\<open>Math.pow\<close> is \<^const>\<open>powr\<close>; they agree
  with the library on a non-negative argument and on a positive base, which is where the
  theorems below use them.
\<close>

text \<open>
  \<^verbatim>\<open>Math.PI\<close> is a double, and as such a rational number a little below \<open>\<pi>\<close>:
  \<open>884279719003555 / 2 ^ 48\<close>.
\<close>

definition Math_PI :: real where
  "Math_PI = 884279719003555 / 281474976710656"

text \<open>
  \<^verbatim>\<open>Math.atan2(y, x)\<close> over the reals, by quadrant as ECMAScript defines it. Where
  the result of the library depends on the sign of a zero (\<open>y = \<plusminus>0\<close> with \<open>x < 0\<close>
  or \<open>x = \<plusminus>0\<close>), which a real number does not have, the model gives no value.
\<close>

definition Math_atan2 :: "real \<Rightarrow> real \<Rightarrow> real option" where
  "Math_atan2 y x =
     (if 0 < x then Some (arctan (y / x))
      else if x < 0 then
        (if 0 < y then Some (arctan (y / x) + pi)
         else if y < 0 then Some (arctan (y / x) - pi)
         else None)
      else if 0 < y then Some (pi / 2)
      else if y < 0 then Some (- (pi / 2))
      else None)"

section \<open>US Standard Atmosphere 1976: class Atmosphere\<close>

text \<open>The fields of the object, in the order the constructor assigns them.\<close>

record atmosphere =
  m_i :: "real list"
  f_i :: "real list"
  m :: real
  r :: real
  s :: real
  beta :: real
  gamma :: real
  wgs_g :: real
  t_0 :: real
  p_0 :: real
  rho_0 :: real
  temp :: real
  press :: real
  dens :: real
  sound :: real
  visc :: real
  kinViscosity :: real
  valid :: bool
  h_b :: "real list"
  p_b :: "real list"
  t_b :: "real list"
  l_b :: "real list"

text \<open>The two tables of the gas mixture (molecular weight and fractional volume).\<close>

definition Atmosphere_m_i :: "real list" where
  "Atmosphere_m_i =
     [28.0134, 31.9988, 39.948, 44.00995, 20.183, 4.0026, 83.8, 131.3, 16.04303, 2.01594]"

definition Atmosphere_f_i :: "real list" where
  "Atmosphere_f_i =
     [0.78084, 0.209476, 0.00934, 0.000314, 0.00001818, 0.00000524, 0.00000114,
      0.000000087, 0.000002, 0.0000005]"

text \<open>
  The constructor: \<^verbatim>\<open>new Atmosphere()\<close>. The mean molecular weight is the quotient
  of the two ten-term sums, written out index by index as in the source.
\<close>

definition Atmosphere_new :: atmosphere where
  "Atmosphere_new =
     \<lparr> m_i = Atmosphere_m_i,
       f_i = Atmosphere_f_i,
       m = ( Atmosphere_m_i ! 0 * Atmosphere_f_i ! 0
           + Atmosphere_m_i ! 1 * Atmosphere_f_i ! 1
           + Atmosphere_m_i ! 2 * Atmosphere_f_i ! 2
           + Atmosphere_m_i ! 3 * Atmosphere_f_i ! 3
           + Atmosphere_m_i ! 4 * Atmosphere_f_i ! 4
           + Atmosphere_m_i ! 5 * Atmosphere_f_i ! 5
           + Atmosphere_m_i ! 6 * Atmosphere_f_i ! 6
           + Atmosphere_m_i ! 7 * Atmosphere_f_i ! 7
           + Atmosphere_m_i ! 8 * Atmosphere_f_i ! 8
           + Atmosphere_m_i ! 9 * Atmosphere_f_i ! 9 )
           /
           ( Atmosphere_f_i ! 0
           + Atmosphere_f_i ! 1
           + Atmosphere_f_i ! 2
           + Atmosphere_f_i ! 3
           + Atmosphere_f_i ! 4
           + Atmosphere_f_i ! 5
           + Atmosphere_f_i ! 6
           + Atmosphere_f_i ! 7
           + Atmosphere_f_i ! 8
           + Atmosphere_f_i ! 9 ),
       r = 8314.32,
       s = 110.0,
       beta = 0.000001458,
       gamma = 1.4,
       wgs_g = 9.80665,
       t_0 = 288.15,
       p_0 = 101325.0,
       rho_0 = 1.225,
       temp = 0.0,
       press = 0.0,
       dens = 0.0,
       sound = 0.0,
       visc = 0.0,
       kinViscosity = 0.0,
       valid = False,
       h_b = [11000.0, 20000.0, 32000.0, 47000.0, 51000.0, 71000.0, 84852.0],
       p_b = [101325.0, 22632.0, 5474.8, 868.01, 110.9, 66.938, 3.9564],
       t_b = [288.15, 216.65, 216.65, 228.65, 270.65, 270.65, 214.65],
       l_b = [- 0.0065, 0.0, 0.001, 0.0028, 0.0, - 0.0028, - 0.002] \<rparr>"

text \<open>The four local variables of \<^verbatim>\<open>update\<close> that hold the resolved layer.\<close>

record layer =
  hb :: real
  pb :: real
  tb :: real
  lb :: real

text \<open>
  The \<^verbatim>\<open>for ( var i = 1; i < 7; i++ )\<close> loop of \<^verbatim>\<open>update\<close>: the first index with
  \<^verbatim>\<open>alt < h_b[i]\<close> overwrites the four locals, sets \<^verbatim>\<open>this.valid\<close> and breaks;
  when no index matches, the object and the locals leave the loop unchanged.
\<close>

function layer_scan :: "atmosphere \<Rightarrow> real \<Rightarrow> nat \<Rightarrow> layer \<Rightarrow> atmosphere \<times> layer" where
  "layer_scan this alt i loc =
     (if i < 7 then
        (if alt < h_b this ! i then
           (this\<lparr>valid := True\<rparr>,
            loc\<lparr>hb := h_b this ! (i - 1), pb := p_b this ! i, tb := t_b this ! i,
                lb := l_b this ! i\<rparr>)
         else layer_scan this alt (i + 1) loc)
      else (this, loc))"
  by pat_completeness auto
termination
  by (relation "measure (\<lambda>(this, alt, i, loc). 7 - i)") auto

declare layer_scan.simps [simp del]

text \<open>
  Lines 162 to 192 of \<^verbatim>\<open>update\<close>: the locals are pre-seeded, then the troposphere
  test and, failing it, the loop.
\<close>

definition update_layer :: "atmosphere \<Rightarrow> real \<Rightarrow> atmosphere \<times> layer" where
  "update_layer this alt =
     (let loc = \<lparr> hb = h_b this ! 5, pb = p_b this ! 6, tb = t_b this ! 6, lb = 0.0 \<rparr>
      in if alt < h_b this ! 0 then
           (this\<lparr>valid := True\<rparr>,
            loc\<lparr>hb := 0.0, pb := p_b this ! 0, tb := t_0 this,
                lb := - (t_0 this - t_b this ! 1) / h_b this ! 0\<rparr>)
         else layer_scan this alt 1 loc)"

text \<open>
  Lines 196 to 221 of \<^verbatim>\<open>update\<close>, the body of \<^verbatim>\<open>if ( this.valid )\<close>: each field is
  assigned in the source's order, the later ones reading the earlier ones.
\<close>

definition update_fields :: "atmosphere \<Rightarrow> real \<Rightarrow> layer \<Rightarrow> atmosphere" where
  "update_fields this alt loc =
     (let delta_h = alt - hb loc;
          this = this\<lparr>temp := tb loc + lb loc * delta_h\<rparr>;
          this =
            (if \<bar>lb loc\<bar> < 0.000001 then
               this\<lparr>press := pb loc * exp (- (wgs_g this * m this * delta_h) / (r this * tb loc))\<rparr>
             else
               this\<lparr>press := pb loc * (tb loc / temp this) powr ((wgs_g this * m this) / (r this * lb loc))\<rparr>);
          this = this\<lparr>dens := (press this * m this) / (r this * temp this)\<rparr>;
          this = this\<lparr>sound := sqrt ((gamma this * r this * temp this) / m this)\<rparr>;
          this = this\<lparr>visc := beta this * (temp this powr (3.0 / 2.0)) / (temp this + s this)\<rparr>;
          this = this\<lparr>kinViscosity := visc this / dens this\<rparr>
      in this)"

text \<open>
  \<^verbatim>\<open>update( alt )\<close>: the six outputs and the flag are reset, an altitude above
  \<^verbatim>\<open>h_b[6]\<close> returns at once, otherwise the layer is resolved and the fields are
  computed when the flag was set. The object is passed in and returned.
\<close>

definition update :: "atmosphere \<Rightarrow> real \<Rightarrow> atmosphere" where
  "update this alt =
     (let this = this\<lparr>temp := 0.0, press := 0.0, dens := 0.0, sound := 0.0, visc := 0.0,
                      kinViscosity := 0.0, valid := False\<rparr>
      in if alt > h_b this ! 6 then this
         else
           (let (this, loc) = update_layer this alt
            in if valid this then update_fields this alt loc else this))"

section \<open>WGS84: class WGS84\<close>

text \<open>The fields of the ellipsoid object, in the order the constructor assigns them.\<close>

record wgs84 =
  a :: real
  f :: real
  b :: real
  a2 :: real
  b2 :: real
  e2 :: real
  ep2 :: real

text \<open>
  The constructor: \<^verbatim>\<open>new WGS84()\<close>. The squared radii are the products
  \<^verbatim>\<open>this.a * this.a\<close> and \<^verbatim>\<open>this.b * this.b\<close> of the literals assigned just before;
  both eccentricities are literals of their own.
\<close>

definition WGS84_new :: wgs84 where
  "WGS84_new =
     \<lparr> a = 6378137.0,
       f = 1.0 / 298.257223563,
       b = 6356752.3142,
       a2 = 6378137.0 * 6378137.0,
       b2 = 6356752.3142 * 6356752.3142,
       e2 = 0.0066943799901400,
       ep2 = 0.0067394967422800 \<rparr>"

text \<open>
  \<^verbatim>\<open>geo2wgs( lat, lon, alt )\<close>: angles in radians, the result is the array
  \<^verbatim>\<open>[ x, y, z ]\<close>.
\<close>

definition geo2wgs :: "wgs84 \<Rightarrow> real \<Rightarrow> real \<Rightarrow> real \<Rightarrow> real list" where
  "geo2wgs this lat lon alt =
     (let sinLat = sin lat;
          cosLat = cos lat;
          sinLon = sin lon;
          cosLon = cos lon;
          n = a this / sqrt (1.0 - e2 this * sinLat * sinLat);
          x = (n + alt) * cosLat * cosLon;
          y = (n + alt) * cosLat * sinLon;
          z = (n * (b2 this / a2 this) + alt) * sinLat
      in [x, y, z])"

text \<open>
  \<^verbatim>\<open>wgs2geo( x, y, z )\<close>: the closed-form inverse, the result is the array
  \<^verbatim>\<open>[ lat, lon, alt ]\<close>. The local that the source calls \<^verbatim>\<open>e2\<close>
  (\<^verbatim>\<open>this.a2 - this.b2\<close>) is \<open>e2_local\<close> here, so that it stays apart from the
  field \<^verbatim>\<open>this.e2\<close>; the other locals keep their names.

  The source guards none of its operations. Where one of them leaves the real numbers (a
  division by zero, the square root of a negative number, a power of a base that is not
  positive, an \<^verbatim>\<open>atan2\<close> that reads the sign of a zero), the doubles go on with an
  infinity, NaN or a signed zero; the model does not follow them there and gives
  \<open>None\<close>. Where it gives \<open>Some\<close>, every operation of the source was one on real
  numbers.
\<close>

definition wgs2geo :: "wgs84 \<Rightarrow> real \<Rightarrow> real \<Rightarrow> real \<Rightarrow> real list option" where
  "wgs2geo this x y z =
     (let z2 = z * z;
          r = sqrt (x * x + y * y);
          r2 = r * r;
          e2_local = a2 this - b2 this;
          f = 54.0 * b2 this * z2;
          g = r2 + (1.0 - e2 this) * z2 - e2 this * e2_local;
          c = e2 this * e2 this * f * r2 / (g * g * g);
          s = (1.0 + c + sqrt (c * c + 2.0 * c)) powr (1.0 / 3.0);
          p0 = s + 1.0 / s + 1.0;
          p = f / (3.0 * p0 * p0 * g * g);
          q = sqrt (1.0 + 2.0 * (e2 this * e2 this) * p);
          r0 = - (p * e2 this * r) / (1.0 + q)
               + sqrt (0.5 * a2 this * (1.0 + 1.0 / q)
                       - p * (1.0 - e2 this) * z2 / (q + q * q) - 0.5 * p * r2);
          uv = r - e2 this * r0;
          u = sqrt (uv * uv + z2);
          v = sqrt (uv * uv + (1.0 - e2 this) * z2);
          z0 = b2 this * z / (a this * v);
          alt = u * (1.0 - b2 this / (a this * v));
          lat = arctan ((z + ep2 this * z0) / r);
          lon = Math_atan2 y x
      in if g * g * g = 0
            \<or> c * c + 2.0 * c < 0
            \<or> 1.0 + c + sqrt (c * c + 2.0 * c) \<le> 0
            \<or> s = 0
            \<or> 3.0 * p0 * p0 * g * g = 0
            \<or> 1.0 + 2.0 * (e2 this * e2 this) * p < 0
            \<or> 1.0 + q = 0
            \<or> q = 0
            \<or> q + q * q = 0
            \<or> 0.5 * a2 this * (1.0 + 1.0 / q)
                  - p * (1.0 - e2 this) * z2 / (q + q * q) - 0.5 * p * r2 < 0
            \<or> uv * uv + (1.0 - e2 this) * z2 < 0
            \<or> a this * v = 0
            \<or> r = 0
         then None
         else map_option (\<lambda>lon. [lat, lon, alt]) lon)"

text \<open>
  The composition \<^verbatim>\<open>wgs2geo(geo2wgs(lat, lon, alt))\<close> of the round-trip property:
  the three entries of the forward result are the arguments of the inverse.
\<close>

definition roundtrip :: "wgs84 \<Rightarrow> real \<Rightarrow> real \<Rightarrow> real \<Rightarrow> real list option" where
  "roundtrip this lat lon alt =
     (let w = geo2wgs this lat lon alt in wgs2geo this (w ! 0) (w ! 1) (w ! 2))"

text \<open>\<^verbatim>\<open>deg2rad( ang )\<close>.\<close>

definition deg2rad :: "real \<Rightarrow> real" where
  "deg2rad ang = ang * Math_PI / 180.0"

section \<open>The locals of the inverse transform on the WGS84 object\<close>

text \<open>
  For the analysis of the round trip, each local of \<^verbatim>\<open>wgs2geo\<close> is named as a
  function of the distance \<open>rho\<close> from the axis (the local \<^verbatim>\<open>r\<close>) and of \<open>z\<close>, on the object that the
  constructor makes. Their right-hand sides are the lines of the source again.
\<close>

definition zhu_f :: "real \<Rightarrow> real" where
  "zhu_f z = 54.0 * b2 WGS84_new * (z * z)"

definition zhu_g :: "real \<Rightarrow> real \<Rightarrow> real" where
  "zhu_g rho z = rho * rho + (1.0 - e2 WGS84_new) * (z * z)
                 - e2 WGS84_new * (a2 WGS84_new - b2 WGS84_new)"

definition zhu_c :: "real \<Rightarrow> real \<Rightarrow> real" where
  "zhu_c rho z = e2 WGS84_new * e2 WGS84_new * zhu_f z * (rho * rho)
                 / (zhu_g rho z * zhu_g rho z * zhu_g rho z)"

definition zhu_s :: "real \<Rightarrow> real \<Rightarrow> real" where
  "zhu_s rho z = (1.0 + zhu_c rho z + sqrt (zhu_c rho z * zhu_c rho z + 2.0 * zhu_c rho z))
                 powr (1.0 / 3.0)"

definition zhu_p0 :: "real \<Rightarrow> real \<Rightarrow> real" where
  "zhu_p0 rho z = zhu_s rho z + 1.0 / zhu_s rho z + 1.0"

definition zhu_p :: "real \<Rightarrow> real \<Rightarrow> real" where
  "zhu_p rho z = zhu_f z / (3.0 * zhu_p0 rho z * zhu_p0 rho z * zhu_g rho z * zhu_g rho z)"

definition zhu_q :: "real \<Rightarrow> real \<Rightarrow> real" where
  "zhu_q rho z = sqrt (1.0 + 2.0 * (e2 WGS84_new * e2 WGS84_new) * zhu_p rho z)"

definition zhu_rad :: "real \<Rightarrow> real \<Rightarrow> real" where
  "zhu_rad rho z = 0.5 * a2 WGS84_new * (1.0 + 1.0 / zhu_q rho z)
                   - zhu_p rho z * (1.0 - e2 WGS84_new) * (z * z)
                       / (zhu_q rho z + zhu_q rho z * zhu_q rho z)
                   - 0.5 * zhu_p rho z * (rho * rho)"

definition zhu_r0 :: "real \<Rightarrow> real \<Rightarrow> real" where
  "zhu_r0 rho z = - (zhu_p rho z * e2 WGS84_new * rho) / (1.0 + zhu_q rho z) + sqrt (zhu_rad rho z)"

definition zhu_uv :: "real \<Rightarrow> real \<Rightarrow> real" where
  "zhu_uv rho z = rho - e2 WGS84_new * zhu_r0 rho z"

definition zhu_u :: "real \<Rightarrow> real \<Rightarrow> real" where
  "zhu_u rho z = sqrt (zhu_uv rho z * zhu_uv rho z + z * z)"

definition zhu_v :: "real \<Rightarrow> real \<Rightarrow> real" where
  "zhu_v rho z = sqrt (zhu_uv rho z * zhu_uv rho z + (1.0 - e2 WGS84_new) * (z * z))"

definition zhu_z0 :: "real \<Rightarrow> real \<Rightarrow> real" where
  "zhu_z0 rho z = b2 WGS84_new * z / (a WGS84_new * zhu_v rho z)"

definition zhu_alt :: "real \<Rightarrow> real \<Rightarrow> real" where
  "zhu_alt rho z = zhu_u rho z * (1.0 - b2 WGS84_new / (a WGS84_new * zhu_v rho z))"

definition zhu_lat :: "real \<Rightarrow> real \<Rightarrow> real" where
  "zhu_lat rho z = arctan ((z + ep2 WGS84_new * zhu_z0 rho z) / rho)"

text \<open>
  The forward transform in the meridian plane: the radius of curvature \<open>n\<close> of
  \<^verbatim>\<open>geo2wgs\<close>, the distance from the axis and the height above the equatorial
  plane, as functions of the sine \<open>S\<close> and the cosine \<open>C\<close> of the latitude and of
  the altitude \<open>h\<close>.
\<close>

definition fw_n :: "real \<Rightarrow> real" where
  "fw_n S = a WGS84_new / sqrt (1.0 - e2 WGS84_new * S * S)"

definition fw_r :: "real \<Rightarrow> real \<Rightarrow> real \<Rightarrow> real" where
  "fw_r S C h = (fw_n S + h) * C"

definition fw_z :: "real \<Rightarrow> real \<Rightarrow> real" where
  "fw_z S h = (fw_n S * (b2 WGS84_new / a2 WGS84_new) + h) * S"

text \<open>
  The part of the domain of the round-trip property that the analysis uses: \<open>S\<close> and
  \<open>C\<close> are the sine and the cosine of a latitude at least a tenth of a degree away from
  the poles, and \<open>h\<close> is an altitude between 0 and 100000 m.
\<close>

definition in_dom :: "real \<Rightarrow> real \<Rightarrow> real \<Rightarrow> bool" where
  "in_dom S C h \<longleftrightarrow> S * S + C * C = 1 \<and> 1 / 900 \<le> C \<and> 0 \<le> h \<and> h \<le> 100000"

text \<open>
  The length \<open>fw_M\<close> of the normal of the ellipsoid from the point down to the
  equatorial plane, as it is for \<open>b2 = a2 * (1 - e2)\<close>. The fields of the constructor
  are rounded independently, so that \<open>a2 * (1 - e2) - b2\<close> is not zero but \<open>w_D\<close>,
  about 574 square metres; it enters the forward transform as the small length
  \<open>fw_mu\<close>. \<open>fw_t\<close> is the distance from the axis of the point of the ellipsoid that
  lies under the point.
\<close>

definition fw_M :: "real \<Rightarrow> real \<Rightarrow> real" where
  "fw_M S h = fw_n S * (1 - e2 WGS84_new) + h"

definition w_D :: real where
  "w_D = a2 WGS84_new * (1 - e2 WGS84_new) - b2 WGS84_new"

definition fw_mu :: "real \<Rightarrow> real" where
  "fw_mu S = fw_n S * (w_D / a2 WGS84_new)"

definition fw_t :: "real \<Rightarrow> real \<Rightarrow> real" where
  "fw_t S C = fw_n S * C"

text \<open>
  Auxiliary quantities of the inverse transform: with \<open>zhu_pp\<close> the first summand of
  \<^verbatim>\<open>r0\<close> (sign changed) and \<open>zhu_rad\<close> the radicand of its square root, \<open>r0\<close> is a root
  of the quadratic \<open>(t + zhu_pp)\<^sup>2 = zhu_rad\<close>; \<open>zhu_al\<close> and \<open>zhu_ga\<close> are the constant
  terms of the two quadratic factors of Ferrari's method.
\<close>

definition zhu_al :: "real \<Rightarrow> real \<Rightarrow> real" where
  "zhu_al rho z = zhu_g rho z * zhu_p0 rho z / (6 * e2 WGS84_new)"

definition zhu_pp :: "real \<Rightarrow> real \<Rightarrow> real" where
  "zhu_pp rho z = zhu_p rho z * e2 WGS84_new * rho / (1 + zhu_q rho z)"

definition zhu_ga :: "real \<Rightarrow> real \<Rightarrow> real" where
  "zhu_ga rho z = zhu_al rho z - e2 WGS84_new * (zhu_pp rho z * zhu_pp rho z - zhu_rad rho z)"

text \<open>
  The second quadratic factor \<open>zhu_q1\<close>, and the product \<open>zhu_Pi\<close> of the two factors.
\<close>

definition zhu_q1 :: "real \<Rightarrow> real \<Rightarrow> real \<Rightarrow> real" where
  "zhu_q1 rho z t = e2 WGS84_new * (t * t) - rho * (1 + zhu_q rho z) * t
                      + zhu_al rho z + zhu_ga rho z"

definition zhu_Pi :: "real \<Rightarrow> real \<Rightarrow> real \<Rightarrow> real" where
  "zhu_Pi rho z t = zhu_q1 rho z t
      * (e2 WGS84_new * ((t + zhu_pp rho z) * (t + zhu_pp rho z) - zhu_rad rho z))"

section \<open>The layer scan\<close>

text \<open>One step of the loop, by what the test at index \<open>i\<close> finds.\<close>

lemma layer_scan_match:
  "i < 7 \<Longrightarrow> alt < h_b this ! i \<Longrightarrow>
   layer_scan this alt i loc =
     (this\<lparr>valid := True\<rparr>,
      loc\<lparr>hb := h_b this ! (i - 1), pb := p_b this ! i, tb := t_b this ! i, lb := l_b this ! i\<rparr>)"
  by (subst layer_scan.simps) simp

lemma layer_scan_skip:
  "i < 7 \<Longrightarrow> \<not> alt < h_b this ! i \<Longrightarrow>
   layer_scan this alt i loc = layer_scan this alt (i + 1) loc"
  by (subst layer_scan.simps) simp

lemma layer_scan_end:
  "\<not> i < 7 \<Longrightarrow> layer_scan this alt i loc = (this, loc)"
  by (subst layer_scan.simps) simp

text \<open>The loop writes no field of the object but the flag.\<close>

lemma layer_scan_fst:
  "fst (layer_scan this alt i loc) = this \<or> fst (layer_scan this alt i loc) = this\<lparr>valid := True\<rparr>"
proof (induction this alt i loc rule: layer_scan.induct)
  case (1 this alt i loc)
  show ?case
  proof (cases "i < 7")
    case False
    then show ?thesis by (simp add: layer_scan_end)
  next
    case True
    show ?thesis
    proof (cases "alt < h_b this ! i")
      case True
      with \<open>i < 7\<close> show ?thesis by (simp add: layer_scan_match)
    next
      case False
      with \<open>i < 7\<close> "1.IH" show ?thesis by (simp add: layer_scan_skip)
    qed
  qed
qed

lemma update_layer_fst:
  "fst (update_layer this alt) = this \<or> fst (update_layer this alt) = this\<lparr>valid := True\<rparr>"
  using layer_scan_fst [of this alt 1] by (simp add: update_layer_def Let_def)

section \<open>The constructed object\<close>

lemma Atmosphere_new_reset:
  "Atmosphere_new\<lparr>temp := 0, press := 0, dens := 0, sound := 0, visc := 0,
                  kinViscosity := 0, valid := False\<rparr> = Atmosphere_new"
  by (simp add: Atmosphere_new_def)

lemma Atmosphere_new_tables:
  "h_b Atmosphere_new = [11000, 20000, 32000, 47000, 51000, 71000, 84852]"
  "p_b Atmosphere_new = [101325, 22632, 5474.8, 868.01, 110.9, 66.938, 3.9564]"
  "t_b Atmosphere_new = [288.15, 216.65, 216.65, 228.65, 270.65, 270.65, 214.65]"
  "l_b Atmosphere_new = [- 0.0065, 0, 0.001, 0.0028, 0, - 0.0028, - 0.002]"
  by (simp_all add: Atmosphere_new_def)

lemma Atmosphere_new_consts:
  "r Atmosphere_new = 8314.32"
  "s Atmosphere_new = 110"
  "beta Atmosphere_new = 0.000001458"
  "gamma Atmosphere_new = 1.4"
  "wgs_g Atmosphere_new = 9.80665"
  "t_0 Atmosphere_new = 288.15"
  "p_0 Atmosphere_new = 101325"
  "rho_0 Atmosphere_new = 1.225"
  by (simp_all add: Atmosphere_new_def)

lemma Atmosphere_new_m_pos: "0 < m Atmosphere_new"
  by (simp add: Atmosphere_new_def Atmosphere_m_i_def Atmosphere_f_i_def)

section \<open>Layer resolution on the constructed object, band by band\<close>

lemma update_layer_troposphere:
  "alt < 11000 \<Longrightarrow>
   update_layer Atmosphere_new alt =
     (Atmosphere_new\<lparr>valid := True\<rparr>,
      \<lparr> hb = 0, pb = 101325, tb = 288.15, lb = - (288.15 - 216.65) / 11000 \<rparr>)"
  by (simp add: update_layer_def Atmosphere_new_tables Atmosphere_new_consts)

lemma update_layer_1:
  "11000 \<le> alt \<Longrightarrow> alt < 20000 \<Longrightarrow>
   update_layer Atmosphere_new alt =
     (Atmosphere_new\<lparr>valid := True\<rparr>, \<lparr> hb = 11000, pb = 22632, tb = 216.65, lb = 0 \<rparr>)"
  by (simp add: update_layer_def Atmosphere_new_tables layer_scan_match)

lemma update_layer_2:
  "20000 \<le> alt \<Longrightarrow> alt < 32000 \<Longrightarrow>
   update_layer Atmosphere_new alt =
     (Atmosphere_new\<lparr>valid := True\<rparr>, \<lparr> hb = 20000, pb = 5474.8, tb = 216.65, lb = 0.001 \<rparr>)"
  by (simp add: update_layer_def Atmosphere_new_tables layer_scan_match layer_scan_skip)

lemma update_layer_3:
  "32000 \<le> alt \<Longrightarrow> alt < 47000 \<Longrightarrow>
   update_layer Atmosphere_new alt =
     (Atmosphere_new\<lparr>valid := True\<rparr>, \<lparr> hb = 32000, pb = 868.01, tb = 228.65, lb = 0.0028 \<rparr>)"
  by (simp add: update_layer_def Atmosphere_new_tables layer_scan_match layer_scan_skip)

lemma update_layer_4:
  "47000 \<le> alt \<Longrightarrow> alt < 51000 \<Longrightarrow>
   update_layer Atmosphere_new alt =
     (Atmosphere_new\<lparr>valid := True\<rparr>, \<lparr> hb = 47000, pb = 110.9, tb = 270.65, lb = 0 \<rparr>)"
  by (simp add: update_layer_def Atmosphere_new_tables layer_scan_match layer_scan_skip)

lemma update_layer_5:
  "51000 \<le> alt \<Longrightarrow> alt < 71000 \<Longrightarrow>
   update_layer Atmosphere_new alt =
     (Atmosphere_new\<lparr>valid := True\<rparr>, \<lparr> hb = 51000, pb = 66.938, tb = 270.65, lb = - 0.0028 \<rparr>)"
  by (simp add: update_layer_def Atmosphere_new_tables layer_scan_match layer_scan_skip)

lemma update_layer_6:
  "71000 \<le> alt \<Longrightarrow> alt < 84852 \<Longrightarrow>
   update_layer Atmosphere_new alt =
     (Atmosphere_new\<lparr>valid := True\<rparr>, \<lparr> hb = 71000, pb = 3.9564, tb = 214.65, lb = - 0.002 \<rparr>)"
  by (simp add: update_layer_def Atmosphere_new_tables layer_scan_match layer_scan_skip)

text \<open>From \<open>h_b[6]\<close> upwards no index matches: the pre-seeded locals and the flag stay.\<close>

lemma update_layer_none:
  "84852 \<le> alt \<Longrightarrow>
   update_layer Atmosphere_new alt =
     (Atmosphere_new, \<lparr> hb = 71000, pb = 3.9564, tb = 214.65, lb = 0 \<rparr>)"
  by (simp add: update_layer_def Atmosphere_new_tables layer_scan_skip layer_scan_end)

lemma altitude_bands:
  fixes alt :: real
  assumes "alt < 84852"
  obtains (L0) "alt < 11000"
    | (L1) "11000 \<le> alt" "alt < 20000"
    | (L2) "20000 \<le> alt" "alt < 32000"
    | (L3) "32000 \<le> alt" "alt < 47000"
    | (L4) "47000 \<le> alt" "alt < 51000"
    | (L5) "51000 \<le> alt" "alt < 71000"
    | (L6) "71000 \<le> alt" "alt < 84852"
  using assms by linarith

section \<open>The computed fields\<close>

lemma update_resolved:
  "\<not> alt > 84852 \<Longrightarrow> update_layer Atmosphere_new alt = (this', loc) \<Longrightarrow>
   update Atmosphere_new alt = (if valid this' then update_fields this' alt loc else this')"
  by (simp add: update_def Atmosphere_new_reset Atmosphere_new_tables)

lemma update_fields_temp: "temp (update_fields this alt loc) = tb loc + lb loc * (alt - hb loc)"
  by (simp add: update_fields_def Let_def)

lemma update_fields_press:
  "press (update_fields this alt loc) =
     (if \<bar>lb loc\<bar> < 0.000001
      then pb loc * exp (- (wgs_g this * m this * (alt - hb loc)) / (r this * tb loc))
      else pb loc * (tb loc / (tb loc + lb loc * (alt - hb loc))) powr
             ((wgs_g this * m this) / (r this * lb loc)))"
  by (simp add: update_fields_def Let_def)

lemma update_fields_valid: "valid (update_fields this alt loc) = valid this"
  by (simp add: update_fields_def Let_def)

lemma update_fields_m: "m (update_fields this alt loc) = m this"
  by (simp add: update_fields_def Let_def)

text \<open>No evaluation writes the mean molecular weight.\<close>

lemma update_m: "m (update this alt) = m this"
proof -
  let ?t = "this\<lparr>temp := 0, press := 0, dens := 0, sound := 0, visc := 0,
                  kinViscosity := 0, valid := False\<rparr>"
  obtain this' loc where ul: "update_layer ?t alt = (this', loc)"
    by (cases "update_layer ?t alt")
  from update_layer_fst [of ?t alt] ul have "m this' = m this"
    by auto
  then show ?thesis
    by (simp add: update_def Let_def ul update_fields_m)
qed

lemma update_history_m: "m (foldl update this alts) = m this"
  by (induction alts arbitrary: this) (simp_all add: update_m)

text \<open>The barometric form falls strictly with the height above the layer base.\<close>

lemma barometric_decreasing:
  fixes g mm R t p x y h :: real
  assumes "0 < g" "0 < mm" "0 < R" "0 < t" "0 < p" "x < y"
  shows "p * exp (- (g * mm * (y - h)) / (R * t)) < p * exp (- (g * mm * (x - h)) / (R * t))"
proof -
  have "0 < g * mm" using assms by simp
  then have "g * mm * (x - h) < g * mm * (y - h)"
    using assms by (intro mult_strict_left_mono) simp_all
  moreover have "0 < R * t" using assms by simp
  ultimately have "(g * mm * (x - h)) / (R * t) < (g * mm * (y - h)) / (R * t)"
    by (rule divide_strict_right_mono)
  then have "- (g * mm * (y - h)) / (R * t) < - (g * mm * (x - h)) / (R * t)"
    by simp
  then show ?thesis using assms by simp
qed

text \<open>
  An evaluation does not depend on the earlier ones: \<^verbatim>\<open>update\<close> resets what it
  writes before it reads anything, so the theorems below, stated on a new object, hold
  as well on an object that was evaluated before.
\<close>

lemma reset_update_fields:
  "(update_fields this alt loc)\<lparr>temp := 0, press := 0, dens := 0, sound := 0, visc := 0,
       kinViscosity := 0, valid := False\<rparr>
   = this\<lparr>temp := 0, press := 0, dens := 0, sound := 0, visc := 0,
       kinViscosity := 0, valid := False\<rparr>"
  by (simp add: update_fields_def Let_def)

lemma reset_update:
  "(update this x)\<lparr>temp := 0, press := 0, dens := 0, sound := 0, visc := 0,
       kinViscosity := 0, valid := False\<rparr>
   = this\<lparr>temp := 0, press := 0, dens := 0, sound := 0, visc := 0,
       kinViscosity := 0, valid := False\<rparr>"
proof -
  let ?t = "this\<lparr>temp := 0, press := 0, dens := 0, sound := 0, visc := 0,
                  kinViscosity := 0, valid := False\<rparr>"
  obtain this' loc where ul: "update_layer ?t x = (this', loc)"
    by (cases "update_layer ?t x")
  from update_layer_fst [of ?t x] ul have "this' = ?t \<or> this' = ?t\<lparr>valid := True\<rparr>"
    by simp
  then show ?thesis
    by (auto simp add: update_def Let_def ul reset_update_fields)
qed

lemma update_reuse: "update (update this x) alt = update this alt"
proof -
  have "update (update this x) alt =
    (let t = (update this x)\<lparr>temp := 0, press := 0, dens := 0, sound := 0, visc := 0,
                      kinViscosity := 0, valid := False\<rparr>
      in if alt > h_b t ! 6 then t
         else
           (let (t', loc) = update_layer t alt
            in if valid t' then update_fields t' alt loc else t'))"
    by (simp add: update_def)
  also have "\<dots> = update this alt"
    unfolding reset_update by (simp add: update_def)
  finally show ?thesis .
qed

lemma update_history: "update (foldl update this alts) alt = update this alt"
  by (induction alts arbitrary: this rule: rev_induct) (simp_all add: update_reuse)

text \<open>No evaluation writes the table of the layer altitudes.\<close>

lemma update_h_b: "h_b (update this alt) = h_b this"
  using arg_cong [OF reset_update, of h_b this alt] by simp

lemma update_history_h_b: "h_b (foldl update this alts) = h_b this"
  by (induction alts arbitrary: this) (simp_all add: update_h_b)

section \<open>Claims on the atmosphere evaluation\<close>

text \<open>
  C1. The spec says that an altitude exactly equal to \<open>h_b[6] = 84852\<close> is evaluated
  with the flag set, from the pre-seeded values. On the code the early return is not
  taken there (its test is the strict \<open>alt > h_b[6]\<close>), the troposphere test fails and no
  index of the scan satisfies \<open>alt < h_b[i]\<close>: the locals still hold the pre-seeded values,
  but the flag was never set, so the fields are not computed and the state returned is
  the reset one, flag false and every output zero.
\<close>

theorem update_at_h_b_6_invalid:
  "\<not> (84852 > h_b Atmosphere_new ! 6)
   \<and> update_layer Atmosphere_new 84852 =
       (Atmosphere_new, \<lparr> hb = h_b Atmosphere_new ! 5, pb = p_b Atmosphere_new ! 6,
                          tb = t_b Atmosphere_new ! 6, lb = 0 \<rparr>)
   \<and> valid (update Atmosphere_new 84852) = False
   \<and> temp (update Atmosphere_new 84852) = 0
   \<and> press (update Atmosphere_new 84852) = 0
   \<and> dens (update Atmosphere_new 84852) = 0
   \<and> sound (update Atmosphere_new 84852) = 0
   \<and> visc (update Atmosphere_new 84852) = 0
   \<and> kinViscosity (update Atmosphere_new 84852) = 0"
  by (simp add: update_resolved [OF _ update_layer_none] update_layer_none)
     (simp add: Atmosphere_new_def)

text \<open>
  C2, as the spec states it, fails: between 20000 m and 32000 m the scan stops at index 2,
  whose gradient is \<open>l_b[2] = 0.001\<close>, so the temperature rises with the altitude; at
  26000 m it is 222.65 K.
\<close>

theorem isothermal_20000_32000_counterexample:
  "lb (snd (update_layer Atmosphere_new 26000)) = 0.001
   \<and> temp (update Atmosphere_new 26000) = 222.65
   \<and> temp (update Atmosphere_new 26000) \<noteq> 216.65"
  by (simp add: update_resolved [OF _ update_layer_2] update_layer_2 update_fields_temp
      update_fields_valid)

text \<open>
  C2, amended. The layer of gradient zero is the one from 11000 m (included) to 20000 m
  (excluded), where the scan stops at index 1: there the temperature is 216.65 K at every
  altitude, the pressure is the barometric exponential on the base pressure \<open>p_b[1]\<close>,
  and of two altitudes of the layer the higher one has the strictly lower pressure.
\<close>

theorem isothermal_11000_20000:
  assumes "11000 \<le> x" and "x < y" and "y < 20000"
  shows "lb (snd (update_layer Atmosphere_new x)) = 0
       \<and> temp (update Atmosphere_new x) = 216.65
       \<and> temp (update Atmosphere_new y) = 216.65
       \<and> press (update Atmosphere_new x) =
           22632 * exp (- (wgs_g Atmosphere_new * m Atmosphere_new * (x - 11000))
                          / (r Atmosphere_new * 216.65))
       \<and> press (update Atmosphere_new y) < press (update Atmosphere_new x)"
proof -
  have px: "press (update Atmosphere_new x) =
      22632 * exp (- (wgs_g Atmosphere_new * m Atmosphere_new * (x - 11000))
                     / (r Atmosphere_new * 216.65))"
    using assms
    by (simp add: update_resolved [OF _ update_layer_1] update_fields_valid update_fields_press)
  have py: "press (update Atmosphere_new y) =
      22632 * exp (- (wgs_g Atmosphere_new * m Atmosphere_new * (y - 11000))
                     / (r Atmosphere_new * 216.65))"
    using assms
    by (simp add: update_resolved [OF _ update_layer_1] update_fields_valid update_fields_press)
  have lt: "press (update Atmosphere_new y) < press (update Atmosphere_new x)"
    unfolding px py
    by (rule barometric_decreasing)
       (simp_all add: assms Atmosphere_new_m_pos Atmosphere_new_consts)
  have tx: "temp (update Atmosphere_new x) = 216.65"
    using assms
    by (simp add: update_resolved [OF _ update_layer_1] update_fields_valid update_fields_temp)
  have ty: "temp (update Atmosphere_new y) = 216.65"
    using assms
    by (simp add: update_resolved [OF _ update_layer_1] update_fields_valid update_fields_temp)
  have l: "lb (snd (update_layer Atmosphere_new x)) = 0"
    using assms by (simp add: update_layer_1)
  from l tx ty px lt show ?thesis by simp
qed

theorem isothermal_11000_20000_witness:
  "(11000 :: real) \<le> 12000 \<and> (12000 :: real) < 15000 \<and> (15000 :: real) < 20000
   \<and> temp (update Atmosphere_new 12000) = 216.65
   \<and> temp (update Atmosphere_new 15000) = 216.65
   \<and> press (update Atmosphere_new 15000) < press (update Atmosphere_new 12000)"
  using isothermal_11000_20000 [of 12000 15000] by simp

text \<open>
  C3, as the spec states it, fails: strictly between \<open>h_b[5]\<close> and \<open>h_b[6]\<close> the scan
  does match, at index 6, and overwrites the pre-seeded gradient \<open>0\<close> with \<open>l_b[6]\<close>;
  at 80000 m the locals are not the pre-seeded ones.
\<close>

theorem top_layer_fallback_counterexample:
  "snd (update_layer Atmosphere_new 80000) \<noteq>
     \<lparr> hb = h_b Atmosphere_new ! 5, pb = p_b Atmosphere_new ! 6,
       tb = t_b Atmosphere_new ! 6, lb = 0 \<rparr>"
  by (simp add: update_layer_6 Atmosphere_new_tables)

text \<open>
  C3, amended. For every altitude strictly between \<open>h_b[5] = 71000\<close> and
  \<open>h_b[6] = 84852\<close> the layer parameters are \<open>hb = h_b[5]\<close>, \<open>pb = p_b[6]\<close>,
  \<open>tb = t_b[6]\<close> and the gradient \<open>lb = l_b[6] = -0.002\<close>, set by the scan at index 6
  together with the flag; the temperature falls linearly from \<open>t_b[6]\<close>.
\<close>

theorem top_layer_parameters:
  assumes "71000 < alt" and "alt < 84852"
  shows "update_layer Atmosphere_new alt =
           (Atmosphere_new\<lparr>valid := True\<rparr>,
            \<lparr> hb = h_b Atmosphere_new ! 5, pb = p_b Atmosphere_new ! 6,
              tb = t_b Atmosphere_new ! 6, lb = l_b Atmosphere_new ! 6 \<rparr>)
       \<and> l_b Atmosphere_new ! 6 = - 0.002
       \<and> valid (update Atmosphere_new alt)
       \<and> temp (update Atmosphere_new alt) = 214.65 - 0.002 * (alt - 71000)"
  using assms
  by (simp add: update_resolved [OF _ update_layer_6] update_layer_6 update_fields_temp
      update_fields_valid Atmosphere_new_tables)

theorem top_layer_parameters_witness:
  "(71000 :: real) < 80000 \<and> (80000 :: real) < 84852
   \<and> lb (snd (update_layer Atmosphere_new 80000)) = - 0.002
   \<and> valid (update Atmosphere_new 80000)
   \<and> temp (update Atmosphere_new 80000) = 196.65"
  using top_layer_parameters [of 80000] by (simp add: Atmosphere_new_tables)

text \<open>
  C4. Whatever the object holds before the call, fields computed by an earlier
  evaluation and a set flag included, an altitude above its \<open>h_b[6]\<close> makes the
  evaluation return right after the reset: the flag is false and temperature, pressure,
  density, speed of sound and both viscosities are zero. The constructor sets
  \<open>h_b[6] = 84852\<close> and no evaluation changes it.
\<close>

theorem update_above_h_b_6:
  assumes "h_b this ! 6 < alt"
  shows "valid (update this alt) = False
       \<and> temp (update this alt) = 0
       \<and> press (update this alt) = 0
       \<and> dens (update this alt) = 0
       \<and> sound (update this alt) = 0
       \<and> visc (update this alt) = 0
       \<and> kinViscosity (update this alt) = 0
       \<and> h_b (foldl update Atmosphere_new alts) ! 6 = 84852"
  using assms by (simp add: update_def update_history_h_b Atmosphere_new_tables)

theorem update_above_h_b_6_witness:
  "h_b (update Atmosphere_new 0) ! 6 < 90000
   \<and> valid (update Atmosphere_new 0) = True
   \<and> temp (update Atmosphere_new 0) = 288.15
   \<and> valid (update (update Atmosphere_new 0) 90000) = False
   \<and> temp (update (update Atmosphere_new 0) 90000) = 0
   \<and> press (update (update Atmosphere_new 0) 90000) = 0
   \<and> dens (update (update Atmosphere_new 0) 90000) = 0
   \<and> sound (update (update Atmosphere_new 0) 90000) = 0
   \<and> visc (update (update Atmosphere_new 0) 90000) = 0
   \<and> kinViscosity (update (update Atmosphere_new 0) 90000) = 0"
proof -
  have h: "h_b (update Atmosphere_new 0) ! 6 < 90000"
    by (simp add: update_h_b Atmosphere_new_tables)
  have before: "valid (update Atmosphere_new 0) = True"
    "temp (update Atmosphere_new 0) = 288.15"
    by (simp_all add: update_resolved [OF _ update_layer_troposphere] update_fields_temp
        update_fields_valid)
  from update_above_h_b_6 [OF h] h before show ?thesis by blast
qed

text \<open>
  C5. At exactly 11000 m the troposphere test \<open>alt < h_b[0]\<close> is false, the scan stops
  at index 1 with \<open>hb = h_b[0]\<close> and \<open>tb = t_b[1] = 216.65\<close>, the height above the layer
  base is zero, and the evaluation returns the flag set and the temperature 216.65 K.
\<close>

theorem update_at_11000:
  "\<not> (11000 < h_b Atmosphere_new ! 0)
   \<and> update_layer Atmosphere_new 11000 =
       (Atmosphere_new\<lparr>valid := True\<rparr>,
        \<lparr> hb = h_b Atmosphere_new ! 0, pb = p_b Atmosphere_new ! 1,
          tb = t_b Atmosphere_new ! 1, lb = l_b Atmosphere_new ! 1 \<rparr>)
   \<and> t_b Atmosphere_new ! 1 = 216.65
   \<and> 11000 - hb (snd (update_layer Atmosphere_new 11000)) = 0
   \<and> valid (update Atmosphere_new 11000)
   \<and> temp (update Atmosphere_new 11000) = 216.65"
  by (simp add: update_resolved [OF _ update_layer_1] update_layer_1 update_fields_temp
      update_fields_valid Atmosphere_new_tables)

text \<open>
  C7. For every altitude below \<open>h_b[6]\<close>, with \<open>loc\<close> the resolved layer, the pressure
  is the barometric exponential when \<open>|lb| < 1e-6\<close> and the power law otherwise, and
  nothing but \<open>lb\<close> selects the form. The gradients the table can resolve are zero or at
  least \<open>0.001\<close> in absolute value, so the exponential is used exactly when \<open>lb = 0\<close>
  and the divisor \<open>r * lb\<close> of the power law's exponent is never zero. The base
  \<open>tb / temp\<close> of the power is positive.
\<close>

theorem pressure_branch_selection:
  fixes alt :: real
  assumes "alt < 84852" and "loc = snd (update_layer Atmosphere_new alt)"
  shows "press (update Atmosphere_new alt) =
          (if \<bar>lb loc\<bar> < 0.000001
           then pb loc * exp (- (wgs_g Atmosphere_new * m Atmosphere_new * (alt - hb loc))
                                / (r Atmosphere_new * tb loc))
           else pb loc * (tb loc / temp (update Atmosphere_new alt)) powr
                  ((wgs_g Atmosphere_new * m Atmosphere_new) / (r Atmosphere_new * lb loc)))
      \<and> ((\<bar>lb loc\<bar> < 0.000001 \<and> lb loc = 0)
          \<or> (0.001 \<le> \<bar>lb loc\<bar> \<and> r Atmosphere_new * lb loc \<noteq> 0))
      \<and> 0 < tb loc / temp (update Atmosphere_new alt)"
  using assms(1)
proof (cases rule: altitude_bands)
  case L0
  then show ?thesis unfolding assms(2)
    by (simp add: update_resolved [OF _ update_layer_troposphere] update_layer_troposphere
        update_fields_temp update_fields_valid update_fields_press Atmosphere_new_consts; argo)
next
  case L1
  then show ?thesis unfolding assms(2)
    by (simp add: update_resolved [OF _ update_layer_1] update_layer_1
        update_fields_temp update_fields_valid update_fields_press Atmosphere_new_consts; argo)
next
  case L2
  then show ?thesis unfolding assms(2)
    by (simp add: update_resolved [OF _ update_layer_2] update_layer_2
        update_fields_temp update_fields_valid update_fields_press Atmosphere_new_consts; argo)
next
  case L3
  then show ?thesis unfolding assms(2)
    by (simp add: update_resolved [OF _ update_layer_3] update_layer_3
        update_fields_temp update_fields_valid update_fields_press Atmosphere_new_consts; argo)
next
  case L4
  then show ?thesis unfolding assms(2)
    by (simp add: update_resolved [OF _ update_layer_4] update_layer_4
        update_fields_temp update_fields_valid update_fields_press Atmosphere_new_consts; argo)
next
  case L5
  then show ?thesis unfolding assms(2)
    by (simp add: update_resolved [OF _ update_layer_5] update_layer_5
        update_fields_temp update_fields_valid update_fields_press Atmosphere_new_consts; argo)
next
  case L6
  then show ?thesis unfolding assms(2)
    by (simp add: update_resolved [OF _ update_layer_6] update_layer_6
        update_fields_temp update_fields_valid update_fields_press Atmosphere_new_consts; argo)
qed

theorem pressure_branch_selection_witness:
  "(5000 :: real) < 84852
   \<and> lb (snd (update_layer Atmosphere_new 5000)) = - 0.0065
   \<and> press (update Atmosphere_new 5000) =
       101325 * (288.15 / temp (update Atmosphere_new 5000)) powr
         ((wgs_g Atmosphere_new * m Atmosphere_new) / (r Atmosphere_new * (- 0.0065)))"
  using pressure_branch_selection [of 5000 "snd (update_layer Atmosphere_new 5000)"]
  by (simp add: update_layer_troposphere)

text \<open>
  C8. The constructor sets the mean molecular weight to the sum of the ten products of
  molecular weight and fractional volume, divided by the sum of the ten fractional
  volumes; after any sequence of evaluations the object still holds that value.
\<close>

theorem mean_molecular_weight:
  "length (m_i Atmosphere_new) = 10
   \<and> length (f_i Atmosphere_new) = 10
   \<and> m Atmosphere_new =
       sum_list (map2 (*) (m_i Atmosphere_new) (f_i Atmosphere_new))
         / sum_list (f_i Atmosphere_new)
   \<and> m (foldl update Atmosphere_new alts) = m Atmosphere_new"
  by (simp add: update_history_m)
     (simp add: Atmosphere_new_def Atmosphere_m_i_def Atmosphere_f_i_def)

text \<open>
  C10. For every altitude below \<open>h_b[0] = 11000\<close>, negative ones included, the flag is
  set and the result is computed from \<open>hb = 0\<close>, \<open>pb = p_b[0]\<close>, \<open>tb = t_0\<close> and
  \<open>lb = -(t_0 - t_b[1]) / h_b[0]\<close>: no test of the code bounds the altitude from below.
\<close>

theorem update_below_h_b_0:
  assumes "alt < 11000"
  shows "update_layer Atmosphere_new alt =
           (Atmosphere_new\<lparr>valid := True\<rparr>,
            \<lparr> hb = 0, pb = p_b Atmosphere_new ! 0, tb = t_0 Atmosphere_new,
              lb = - (t_0 Atmosphere_new - t_b Atmosphere_new ! 1) / h_b Atmosphere_new ! 0 \<rparr>)
       \<and> update Atmosphere_new alt =
           update_fields (Atmosphere_new\<lparr>valid := True\<rparr>) alt
             \<lparr> hb = 0, pb = p_b Atmosphere_new ! 0, tb = t_0 Atmosphere_new,
               lb = - (t_0 Atmosphere_new - t_b Atmosphere_new ! 1) / h_b Atmosphere_new ! 0 \<rparr>
       \<and> valid (update Atmosphere_new alt)
       \<and> temp (update Atmosphere_new alt) = 288.15 - 0.0065 * alt
       \<and> press (update Atmosphere_new alt) =
           101325 * (288.15 / (288.15 - 0.0065 * alt)) powr
             ((wgs_g Atmosphere_new * m Atmosphere_new) / (r Atmosphere_new * (- 0.0065)))"
  using assms
  by (simp add: update_resolved [OF _ update_layer_troposphere] update_layer_troposphere
      update_fields_temp update_fields_valid update_fields_press Atmosphere_new_tables
      Atmosphere_new_consts)

theorem update_below_h_b_0_witness:
  "(- 1000 :: real) < 11000
   \<and> valid (update Atmosphere_new (- 1000))
   \<and> temp (update Atmosphere_new (- 1000)) = 294.65"
proof -
  have h: "(- 1000 :: real) < 11000" by simp
  from update_below_h_b_0 [OF h]
  have "valid (update Atmosphere_new (- 1000))"
    and "temp (update Atmosphere_new (- 1000)) = 288.15 - 0.0065 * (- 1000)"
    by blast+
  with h show ?thesis by simp
qed

section \<open>The constant Math.PI\<close>

text \<open>
  The partial sums of the series of \<^const>\<open>arctan\<close> enclose it on the unit interval;
  with Machin's formula they place \<open>\<pi>\<close> above the double \<^verbatim>\<open>Math.PI\<close>.
\<close>

lemma arctan_series_terms:
  fixes x :: real
  assumes "0 \<le> x" "x \<le> 1"
  shows "(\<Sum>i<2*n. (-1)^i * (1 / real (i * 2 + 1) * x ^ (i * 2 + 1))) \<le> arctan x"
    and "arctan x \<le> (\<Sum>i<2*n+1. (-1)^i * (1 / real (i * 2 + 1) * x ^ (i * 2 + 1)))"
proof -
  let ?a = "\<lambda>i. 1 / real (i * 2 + 1) * x ^ (i * 2 + 1)"
  have pos: "\<And>i. 0 \<le> ?a i" using assms by simp
  have mono: "\<And>i. ?a (Suc i) \<le> ?a i"
  proof -
    fix i
    have "x ^ (Suc i * 2 + 1) \<le> x ^ (i * 2 + 1)"
      using assms by (intro power_decreasing) simp_all
    moreover have "1 / real (Suc i * 2 + 1) \<le> 1 / real (i * 2 + 1)"
      by (simp add: field_simps)
    ultimately show "?a (Suc i) \<le> ?a i"
      using assms by (intro mult_mono) simp_all
  qed
  have zero: "?a \<longlonglongrightarrow> 0"
  proof -
    have s: "summable (\<lambda>k. (-1)^k * ?a k)"
      using summable_arctan_series [of x] assms by simp
    have "(\<lambda>k. \<bar>(-1)^k * ?a k\<bar>) \<longlonglongrightarrow> 0"
      using summable_LIMSEQ_zero [OF s] by (rule tendsto_rabs_zero)
    moreover have "\<bar>(-1)^k * ?a k\<bar> = ?a k" for k
    proof -
      have "\<bar>(-1)^k * ?a k\<bar> = \<bar>(-1::real)^k\<bar> * \<bar>?a k\<bar>" by (rule abs_mult)
      also have "\<bar>(-1::real)^k\<bar> = 1" by (simp add: power_abs)
      also have "\<bar>?a k\<bar> = ?a k" using pos [of k] by (rule abs_of_nonneg)
      finally show ?thesis by simp
    qed
    ultimately show ?thesis by (simp only:)
  qed
  have eq: "arctan x = (\<Sum>k. (-1)^k * ?a k)"
    using arctan_series [of x] assms by simp
  show "(\<Sum>i<2*n. (-1)^i * ?a i) \<le> arctan x"
    unfolding eq by (rule summable_Leibniz'(2) [OF zero pos mono])
  show "arctan x \<le> (\<Sum>i<2*n+1. (-1)^i * ?a i)"
    unfolding eq by (rule summable_Leibniz'(4) [OF zero pos mono])
qed

lemma Math_PI_less_pi: "Math_PI < pi"
proof -
  have l: "(\<Sum>i<2*6. (-1)^i * (1 / real (i * 2 + 1) * (1/5) ^ (i * 2 + 1))) \<le> arctan (1/5 :: real)"
    by (rule arctan_series_terms(1)) simp_all
  have u: "arctan (1/239 :: real) \<le> (\<Sum>i<2*2+1. (-1)^i * (1 / real (i * 2 + 1) * (1/239) ^ (i * 2 + 1)))"
    by (rule arctan_series_terms(2)) simp_all
  have p: "pi = 16 * arctan (1/5) - 4 * arctan (1/239)"
    using machin by simp
  have "Math_PI < 16 * (\<Sum>i<2*6. (-1)^i * (1 / real (i * 2 + 1) * (1/5) ^ (i * 2 + 1)))
     - 4 * (\<Sum>i<2*2+1. (-1)^i * (1 / real (i * 2 + 1) * (1/239) ^ (i * 2 + 1)))"
    by (simp add: Math_PI_def lessThan_Suc eval_nat_numeral)
  also have "\<dots> \<le> pi" unfolding p using l u by linarith
  finally show ?thesis .
qed

section \<open>The resolvent cubic and the factorisation of the quartic\<close>

text \<open>
  The inverse transform solves a quartic by Ferrari's method. With \<open>c \<ge> 0\<close> the local
  \<^verbatim>\<open>s\<close> is a cube root taken of a number that is at least 1, and \<^verbatim>\<open>p0\<close> is the root
  of the resolvent cubic \<open>P\<^sup>2 (P - 3) = 2 c\<close>. The lemmas are stated on plain real
  numbers that stand for the locals.
\<close>

lemma cubic_root:
  fixes cc ss P0 :: real
  assumes c: "0 \<le> cc"
    and s: "ss = (1 + cc + sqrt (cc * cc + 2 * cc)) powr (1 / 3)"
    and p: "P0 = ss + 1 / ss + 1"
  shows "1 \<le> ss" and "3 \<le> P0" and "P0 * P0 * (P0 - 3) = 2 * cc"
proof -
  define w where "w = sqrt (cc * cc + 2 * cc)"
  define X where "X = 1 + cc + w"
  have w0: "0 \<le> w" by (simp add: w_def c)
  have w2: "w * w = cc * cc + 2 * cc" using c by (simp add: w_def)
  have X1: "1 \<le> X" using c w0 by (simp add: X_def)
  have sX: "ss = X powr (1 / 3)" by (simp add: s X_def w_def)
  show s1: "1 \<le> ss" unfolding sX using X1 by (simp add: ge_one_powr_ge_zero)
  have s3: "ss * ss * ss = X"
  proof -
    have "ss ^ 3 = X powr (1 / 3 * 3)"
      unfolding sX using X1 by (simp add: powr_powr flip: powr_realpow)
    then show ?thesis using X1 by (simp add: power3_eq_cube)
  qed
  have inv: "X * (1 + cc - w) = 1"
  proof -
    have "X * (1 + cc - w) = (1 + cc) * (1 + cc) - w * w" by (simp add: X_def algebra_simps)
    then show ?thesis by (simp add: w2 algebra_simps)
  qed
  have sp: "0 < ss" using s1 by simp
  define sg where "sg = ss + 1 / ss"
  have iX: "1 / X = 1 + cc - w"
    using inv X1 by (simp add: field_simps)
  then have is3: "1 / (ss * ss * ss) = 1 + cc - w"
    by (simp only: s3)
  have "sg * sg * sg = ss * ss * ss + 1 / (ss * ss * ss) + 3 * sg"
    using sp by (simp add: sg_def field_simps)
  then have "sg * sg * sg = X + (1 + cc - w) + 3 * sg"
    by (simp only: s3 iX)
  then have sg3: "sg * sg * sg = 2 + 2 * cc + 3 * sg"
    by (simp add: X_def)
  have sg2: "2 \<le> sg"
  proof -
    have "0 \<le> (ss - 1) * (ss - 1) / ss" using sp by simp
    also have "(ss - 1) * (ss - 1) / ss = sg - 2" using sp by (simp add: sg_def field_simps)
    finally show ?thesis by simp
  qed
  have P: "P0 = sg + 1" by (simp add: p sg_def)
  show "3 \<le> P0" using sg2 by (simp add: P)
  have "P0 * P0 * (P0 - 3) = sg * sg * sg - 3 * sg - 2" by (simp add: P algebra_simps)
  then show "P0 * P0 * (P0 - 3) = 2 * cc" by (simp add: sg3)
qed

lemma cubic_root_upper:
  fixes cc P0 :: real
  assumes "3 \<le> P0" and "P0 * P0 * (P0 - 3) = 2 * cc"
  shows "P0 \<le> 3 + 2 * cc / 9"
proof -
  have "3 * 3 \<le> P0 * P0"
    using assms(1) by (intro mult_mono) simp_all
  then have "9 * (P0 - 3) \<le> P0 * P0 * (P0 - 3)"
    using assms(1) by (intro mult_right_mono) simp_all
  then show ?thesis using assms(2) by simp
qed

lemma ferrari_basic:
  fixes ee B2 E rr zz G F cc P0 PP QQ al pp :: real
  assumes e: "0 < ee" and G: "0 < G" and P03: "3 \<le> P0"
    and cub: "P0 * P0 * (P0 - 3) = 2 * cc"
    and c: "cc = ee * ee * F * (rr * rr) / (G * G * G)"
    and F: "F = 54 * B2 * (zz * zz)" and B: "0 \<le> B2"
    and P: "PP = F / (3 * P0 * P0 * G * G)"
    and Q: "QQ = sqrt (1 + 2 * (ee * ee) * PP)"
    and al: "al = G * P0 / (6 * ee)"
    and pp: "pp = PP * ee * rr / (1 + QQ)"
  shows "0 \<le> PP" and "1 \<le> QQ" and "QQ * QQ = 1 + 2 * (ee * ee) * PP"
    and "2 * (ee * ee) * PP * (rr * rr) = G * (P0 - 3) / 3"
    and "rr * (QQ - 1) = 2 * ee * pp"
    and "rr * rr * (QQ * QQ) = rr * rr + 2 * ee * al - G"
    and "al * al * (2 * ee * al - G) = B2 * (zz * zz) * (rr * rr)"
proof -
  have F0: "0 \<le> F" using B by (simp add: F)
  have P0p: "0 < P0" using P03 by simp
  show P0': "0 \<le> PP" using F0 G P0p by (simp add: P)
  have rad: "0 \<le> 1 + 2 * (ee * ee) * PP" using P0' by simp
  show Q2: "QQ * QQ = 1 + 2 * (ee * ee) * PP" using rad by (simp add: Q)
  show Q1: "1 \<le> QQ" using P0' by (simp add: Q)
  have cubG: "P0 * P0 * (P0 - 3) * (G * G * G) = 2 * (ee * ee * F * (rr * rr))"
    using G by (simp add: cub c)
  have PG: "PP * (3 * P0 * P0 * G * G) = F" using G P0p by (simp add: P)
  have "(2 * (ee * ee) * PP * (rr * rr) * 3 - G * (P0 - 3)) * (P0 * P0 * G * G) = 0"
    using cubG PG by algebra
  moreover have "P0 * P0 * G * G \<noteq> 0" using G P0p by simp
  ultimately have "2 * (ee * ee) * PP * (rr * rr) * 3 - G * (P0 - 3) = 0"
    by (simp only: mult_eq_0_iff) simp
  then show ii: "2 * (ee * ee) * PP * (rr * rr) = G * (P0 - 3) / 3"
    by simp
  have "pp * (1 + QQ) = PP * ee * rr" using Q1 by (simp add: pp)
  then have "(rr * (QQ - 1) - 2 * ee * pp) * (1 + QQ) = 0" using Q2 by algebra
  moreover have "1 + QQ \<noteq> 0" using Q1 by simp
  ultimately have "rr * (QQ - 1) - 2 * ee * pp = 0"
    by (simp only: mult_eq_0_iff) simp
  then show "rr * (QQ - 1) = 2 * ee * pp" by simp
  show iv: "rr * rr * (QQ * QQ) = rr * rr + 2 * ee * al - G"
    using ii e by (simp add: Q2 al field_simps)
  have "al * al * (2 * ee * al - G) * (108 * (ee * ee)) = P0 * P0 * (P0 - 3) * (G * G * G)"
    using e by (simp add: al field_simps)
  then have "al * al * (2 * ee * al - G) * (108 * (ee * ee)) = B2 * (zz * zz) * (rr * rr) * (108 * (ee * ee))"
    using cubG F by algebra
  then show "al * al * (2 * ee * al - G) = B2 * (zz * zz) * (rr * rr)"
    using e by simp
qed

lemma ferrari_gamma:
  fixes ee A2 E rr zz G PP QQ al pp RR ga :: real
  assumes e: "0 < ee" and Q1: "1 \<le> QQ"
    and Q2: "QQ * QQ = 1 + 2 * (ee * ee) * PP"
    and iii: "rr * (QQ - 1) = 2 * ee * pp"
    and iv: "rr * rr * (QQ * QQ) = rr * rr + 2 * ee * al - G"
    and Gdef: "G = rr * rr + (1 - ee) * (zz * zz) - ee * E"
    and R: "RR = 1 / 2 * A2 * (1 + 1 / QQ) - PP * (1 - ee) * (zz * zz) / (QQ + QQ * QQ)
                 - 1 / 2 * PP * (rr * rr)"
    and ga: "ga = al - ee * (pp * pp - RR)"
  shows "QQ * ga - al = A2 * ee - (QQ - 1) * (E - A2 * ee) / 2"
proof -
  have Qp: "0 < QQ" using Q1 by simp
  have R': "RR * (2 * QQ * (1 + QQ)) =
      A2 * (1 + QQ) * (1 + QQ) - 2 * PP * (1 - ee) * (zz * zz) - PP * (rr * rr) * QQ * (1 + QQ)"
  proof -
    define X where "X = PP * (1 - ee) * (zz * zz) / (QQ + QQ * QQ)"
    define iq where "iq = 1 / QQ"
    have den: "QQ + QQ * QQ \<noteq> 0" using Qp by (simp add: add_pos_pos less_imp_neq [THEN not_sym])
    have X: "X * (QQ + QQ * QQ) = PP * (1 - ee) * (zz * zz)" using den by (simp add: X_def)
    have iq: "iq * QQ = 1" using Qp by (simp add: iq_def)
    have "2 * RR = A2 * (1 + iq) - 2 * X - PP * (rr * rr)"
      by (simp add: R X_def iq_def)
    then show ?thesis using X iq by algebra
  qed
  have "(2 * (QQ * ga - al) - 2 * A2 * ee + (QQ - 1) * (E - A2 * ee)) * (4 * (ee * ee) * (1 + QQ)) = 0"
    using R' Q2 iii iv Gdef ga by algebra
  moreover have "4 * (ee * ee) * (1 + QQ) \<noteq> 0" using e Qp by simp
  ultimately have "2 * (QQ * ga - al) - 2 * A2 * ee + (QQ - 1) * (E - A2 * ee) = 0"
    by (simp only: mult_eq_0_iff) simp
  then show ?thesis by simp
qed

lemma ferrari_resolvent:
  fixes ee A2 B2 E rr zz G QQ al :: real
  assumes r: "0 < rr"
    and iv: "rr * rr * (QQ * QQ) = rr * rr + 2 * ee * al - G"
    and Gdef: "G = rr * rr + (1 - ee) * (zz * zz) - ee * E"
    and res: "al * al * (2 * ee * al - G) = B2 * (zz * zz) * (rr * rr)"
  shows "QQ * QQ * (al * al + A2 * (rr * rr)) - (al + A2 * ee) * (al + A2 * ee)
       = zz * zz * (B2 - A2 * (1 - ee)) + A2 * ee * (E - A2 * ee)"
proof -
  have "(QQ * QQ * (al * al + A2 * (rr * rr)) - (al + A2 * ee) * (al + A2 * ee)
       - (zz * zz * (B2 - A2 * (1 - ee)) + A2 * ee * (E - A2 * ee))) * (rr * rr) = 0"
    using iv Gdef res by algebra
  moreover have "rr * rr \<noteq> 0" using r by simp
  ultimately have "QQ * QQ * (al * al + A2 * (rr * rr)) - (al + A2 * ee) * (al + A2 * ee)
       - (zz * zz * (B2 - A2 * (1 - ee)) + A2 * ee * (E - A2 * ee)) = 0"
    by (simp only: mult_eq_0_iff) simp
  then show ?thesis by simp
qed

lemma ferrari_product:
  fixes ee rr QQ al pp RR ga tt G :: real
  assumes iii: "rr * (QQ - 1) = 2 * ee * pp"
    and iv: "rr * rr * (QQ * QQ) = rr * rr + 2 * ee * al - G"
    and ga: "ga = al - ee * (pp * pp - RR)"
  shows "(ee * (tt * tt) - rr * (1 + QQ) * tt + al + ga) * (ee * ((tt + pp) * (tt + pp) - RR))
       = ee * ee * (tt * tt * tt * tt) - 2 * ee * rr * (tt * tt * tt) + G * (tt * tt)
         + 2 * rr * (QQ * ga - al) * tt + (al * al - ga * ga)"
  using iii iv ga by algebra

section \<open>The inverse transform by its locals\<close>

text \<open>
  On the constructed object \<^const>\<open>wgs2geo\<close> is the composition of the named locals.
\<close>

lemma wgs2geo_zhu:
  "wgs2geo WGS84_new x y z =
     (if zhu_g (sqrt (x * x + y * y)) z * zhu_g (sqrt (x * x + y * y)) z
           * zhu_g (sqrt (x * x + y * y)) z = 0
         \<or> zhu_c (sqrt (x * x + y * y)) z * zhu_c (sqrt (x * x + y * y)) z
             + 2.0 * zhu_c (sqrt (x * x + y * y)) z < 0
         \<or> 1.0 + zhu_c (sqrt (x * x + y * y)) z
             + sqrt (zhu_c (sqrt (x * x + y * y)) z * zhu_c (sqrt (x * x + y * y)) z
                       + 2.0 * zhu_c (sqrt (x * x + y * y)) z) \<le> 0
         \<or> zhu_s (sqrt (x * x + y * y)) z = 0
         \<or> 3.0 * zhu_p0 (sqrt (x * x + y * y)) z * zhu_p0 (sqrt (x * x + y * y)) z
             * zhu_g (sqrt (x * x + y * y)) z * zhu_g (sqrt (x * x + y * y)) z = 0
         \<or> 1.0 + 2.0 * (e2 WGS84_new * e2 WGS84_new) * zhu_p (sqrt (x * x + y * y)) z < 0
         \<or> 1.0 + zhu_q (sqrt (x * x + y * y)) z = 0
         \<or> zhu_q (sqrt (x * x + y * y)) z = 0
         \<or> zhu_q (sqrt (x * x + y * y)) z
             + zhu_q (sqrt (x * x + y * y)) z * zhu_q (sqrt (x * x + y * y)) z = 0
         \<or> zhu_rad (sqrt (x * x + y * y)) z < 0
         \<or> zhu_uv (sqrt (x * x + y * y)) z * zhu_uv (sqrt (x * x + y * y)) z
             + (1.0 - e2 WGS84_new) * (z * z) < 0
         \<or> a WGS84_new * zhu_v (sqrt (x * x + y * y)) z = 0
         \<or> sqrt (x * x + y * y) = 0
      then None
      else map_option (\<lambda>lon. [zhu_lat (sqrt (x * x + y * y)) z, lon,
                               zhu_alt (sqrt (x * x + y * y)) z])
             (Math_atan2 y x))"
  unfolding wgs2geo_def Let_def zhu_lat_def zhu_alt_def zhu_z0_def zhu_v_def zhu_u_def
    zhu_uv_def zhu_r0_def zhu_rad_def zhu_q_def zhu_p_def zhu_p0_def zhu_s_def zhu_c_def
    zhu_g_def zhu_f_def
  by (rule refl)

section \<open>The forward transform on the domain\<close>

text \<open>
  The fields of the constructed object as numerals, and the range of the quantities of
  the forward transform on the domain \<^const>\<open>in_dom\<close>.
\<close>

lemma WGS84_new_fields:
  "a WGS84_new = 6378137"
  "a2 WGS84_new = 40680631590769"
  "b2 WGS84_new = 40408299984087.05552164"
  "e2 WGS84_new = 0.00669437999014"
  "ep2 WGS84_new = 0.00673949674228"
  by (simp_all add: WGS84_new_def)

lemma in_dom_S2:
  assumes "in_dom S C h"
  shows "0 \<le> S * S" and "S * S \<le> 1" and "0 < C" and "C \<le> 1" and "C * C \<le> 1"
proof -
  have e: "S * S + C * C = 1" and c: "1 / 900 \<le> C" using assms by (simp_all add: in_dom_def)
  show "0 \<le> S * S" by simp
  have "0 \<le> C * C" by simp
  with e show "S * S \<le> 1" by linarith
  show cp: "0 < C" using c by simp
  have "0 \<le> S * S" by simp
  with e show cc: "C * C \<le> 1" by linarith
  show "C \<le> 1"
  proof (rule ccontr)
    assume "\<not> C \<le> 1"
    then have "1 < C" by simp
    then have "1 * 1 < C * C" by (intro mult_strict_mono) simp_all
    with cc show False by simp
  qed
qed

lemma fw_n_bounds:
  assumes "in_dom S C h"
  shows "6378137 \<le> fw_n S" and "fw_n S \<le> 6399594"
    and "fw_n S * fw_n S * (1 - e2 WGS84_new * (S * S)) = a2 WGS84_new"
proof -
  note s = in_dom_S2 [OF assms]
  define rad where "rad = 1 - e2 WGS84_new * (S * S)"
  have "e2 WGS84_new * (S * S) \<le> e2 WGS84_new * 1"
    using s(2) by (intro mult_left_mono) (simp_all add: WGS84_new_fields)
  then have rl: "1 - e2 WGS84_new \<le> rad" by (simp add: rad_def)
  have "0 \<le> e2 WGS84_new * (S * S)" using s(1) by (simp add: WGS84_new_fields)
  then have ru: "rad \<le> 1" by (simp add: rad_def)
  have rp: "0 < rad" using rl by (simp add: WGS84_new_fields)
  have n: "fw_n S = 6378137 / sqrt rad"
    by (simp add: fw_n_def rad_def WGS84_new_fields mult.assoc)
  have sq1: "sqrt rad \<le> 1" using ru by simp
  have sqp: "0 < sqrt rad" using rp by simp
  show "6378137 \<le> fw_n S"
    unfolding n using sq1 sqp by (simp add: field_simps)
  have n2: "fw_n S * fw_n S = 40680631590769 / rad"
    using rp by (simp add: n field_simps)
  have "fw_n S * fw_n S * rad = a2 WGS84_new"
    using rp by (simp add: n2 WGS84_new_fields(2))
  then show "fw_n S * fw_n S * (1 - e2 WGS84_new * (S * S)) = a2 WGS84_new"
    by (simp only: rad_def)
  have "fw_n S * fw_n S \<le> 40680631590769 / (1 - e2 WGS84_new)"
    unfolding n2 using rl rp by (intro divide_left_mono) (simp_all add: WGS84_new_fields)
  also have "\<dots> \<le> 6399594 * 6399594" by (simp add: WGS84_new_fields)
  finally have "fw_n S * fw_n S \<le> 6399594 * 6399594" .
  moreover have "0 \<le> fw_n S" unfolding n using sqp by simp
  ultimately show "fw_n S \<le> 6399594"
    by (metis abs_of_nonneg abs_le_square_iff power2_eq_square zero_le_numeral)
qed

lemma w_D_val: "w_D = 28722166381249117 / 50000000000000"
  by (simp add: w_D_def WGS84_new_fields)

lemma fw_mu_bounds:
  assumes "in_dom S C h"
  shows "0 < fw_mu S" and "fw_mu S \<le> 904 / 10000000"
proof -
  note n = fw_n_bounds [OF assms]
  have k: "fw_mu S = fw_n S * (28722166381249117 / 50000000000000 / 40680631590769)"
    by (simp add: fw_mu_def w_D_val WGS84_new_fields)
  show "0 < fw_mu S" unfolding k using n(1) by simp
  have "fw_mu S \<le> 6399594 * (28722166381249117 / 50000000000000 / 40680631590769)"
    unfolding k using n(2) by (intro mult_right_mono) simp_all
  also have "\<dots> \<le> 904 / 10000000" by simp
  finally show "fw_mu S \<le> 904 / 10000000" .
qed

lemma fw_M_bounds:
  assumes "in_dom S C h"
  shows "6335439 \<le> fw_M S h" and "fw_M S h \<le> 6456753"
proof -
  note n = fw_n_bounds [OF assms]
  have h: "0 \<le> h" "h \<le> 100000" using assms by (simp_all add: in_dom_def)
  have k: "fw_M S h = fw_n S * (1 - 0.00669437999014) + h"
    by (simp add: fw_M_def WGS84_new_fields)
  have "6378137 * (1 - 0.00669437999014) \<le> fw_n S * (1 - 0.00669437999014 :: real)"
    using n(1) by (intro mult_right_mono) simp_all
  then show "6335439 \<le> fw_M S h" unfolding k using h by simp
  have "fw_n S * (1 - 0.00669437999014 :: real) \<le> 6399594 * (1 - 0.00669437999014)"
    using n(2) by (intro mult_right_mono) simp_all
  then show "fw_M S h \<le> 6456753" unfolding k using h by simp
qed

lemma fw_z_alt: "fw_z S h = (fw_M S h - fw_mu S) * S"
  by (simp add: fw_z_def fw_M_def fw_mu_def w_D_def WGS84_new_fields algebra_simps)

lemma fw_r_alt: "fw_r S C h - e2 WGS84_new * fw_t S C = fw_M S h * C"
  by (simp add: fw_r_def fw_M_def fw_t_def algebra_simps)

lemma fw_r_bounds:
  assumes "in_dom S C h"
  shows "6378137 * C \<le> fw_r S C h" and "fw_r S C h \<le> 6499594" and "0 < fw_r S C h"
    and "fw_t S C \<le> fw_r S C h"
proof -
  note n = fw_n_bounds [OF assms] and s = in_dom_S2 [OF assms]
  have h: "0 \<le> h" "h \<le> 100000" using assms by (simp_all add: in_dom_def)
  have "6378137 * C \<le> (fw_n S + h) * C"
    using n(1) h(1) s(3) by (intro mult_right_mono) simp_all
  then show l: "6378137 * C \<le> fw_r S C h" by (simp add: fw_r_def)
  have "(fw_n S + h) * C \<le> 6499594 * 1"
    using n h s by (intro mult_mono) simp_all
  then show "fw_r S C h \<le> 6499594" by (simp add: fw_r_def)
  have "0 < 6378137 * C" using s(3) by simp
  with l show "0 < fw_r S C h" by linarith
  have "fw_n S * C \<le> (fw_n S + h) * C"
    using h(1) s(3) by (intro mult_right_mono) simp_all
  then show "fw_t S C \<le> fw_r S C h" by (simp add: fw_r_def fw_t_def)
qed

lemma fw_t_bounds:
  assumes "in_dom S C h"
  shows "6378137 * C \<le> fw_t S C" and "fw_t S C \<le> 6399594" and "7086 \<le> fw_t S C"
proof -
  note n = fw_n_bounds [OF assms] and s = in_dom_S2 [OF assms]
  have c: "1 / 900 \<le> C" using assms by (simp add: in_dom_def)
  show l: "6378137 * C \<le> fw_t S C"
    unfolding fw_t_def using n(1) s(3) by (intro mult_right_mono) simp_all
  have "fw_n S * C \<le> 6399594 * 1" using n s by (intro mult_mono) simp_all
  then show "fw_t S C \<le> 6399594" by (simp add: fw_t_def)
  have "6378137 * (1 / 900) \<le> 6378137 * C" using c by (intro mult_left_mono) simp_all
  with l show "7086 \<le> fw_t S C" by simp
qed

lemma fw_z_bounds:
  assumes "in_dom S C h"
  shows "fw_z S h * fw_z S h \<le> fw_M S h * fw_M S h"
    and "fw_z S h * fw_z S h \<le> 6456753 * 6456753"
proof -
  note m = fw_M_bounds [OF assms] and mu = fw_mu_bounds [OF assms] and s = in_dom_S2 [OF assms]
  define k where "k = fw_M S h - fw_mu S"
  have k0: "0 \<le> k" and kM: "k \<le> fw_M S h" using m mu by (simp_all add: k_def)
  have "fw_z S h * fw_z S h = (k * k) * (S * S)" by (simp add: fw_z_alt k_def algebra_simps)
  also have "\<dots> \<le> (fw_M S h * fw_M S h) * 1"
    using k0 kM s m by (intro mult_mono) simp_all
  finally show z: "fw_z S h * fw_z S h \<le> fw_M S h * fw_M S h" by simp
  have "fw_M S h * fw_M S h \<le> 6456753 * 6456753" using m by (intro mult_mono) simp_all
  with z show "fw_z S h * fw_z S h \<le> 6456753 * 6456753" by linarith
qed

section \<open>Bounds on the locals of the inverse transform\<close>

text \<open>
  On a point that the forward transform made from the domain, the divisors of the source
  are away from zero and its radicands are not negative.
\<close>

lemma fw_norm_bounds:
  assumes "in_dom S C h" and "rho = fw_r S C h" and "z = fw_z S h"
  shows "rho * rho + z * z \<le> 6499594 * 6499594"
    and "6335438 * 6335438 \<le> rho * rho + z * z"
proof -
  note n = fw_n_bounds [OF assms(1)] and s = in_dom_S2 [OF assms(1)]
    and m = fw_M_bounds [OF assms(1)] and mu = fw_mu_bounds [OF assms(1)]
  have h: "0 \<le> h" "h \<le> 100000" and e: "S * S + C * C = 1"
    using assms(1) by (simp_all add: in_dom_def)
  define k where "k = fw_M S h - fw_mu S"
  define N where "N = fw_n S + h"
  have k0: "6335438 \<le> k" using m mu by (simp add: k_def)
  have kN: "k \<le> N"
    using mu n(1) h(1) by (simp add: k_def N_def fw_M_def WGS84_new_fields)
  have N1: "N \<le> 6499594" using n h by (simp add: N_def)
  have r2: "rho * rho = (N * N) * (C * C)" by (simp add: assms(2) fw_r_def N_def algebra_simps)
  have z2: "z * z = (k * k) * (S * S)" by (simp add: assms(3) fw_z_alt k_def algebra_simps)
  have kk: "k * k \<le> N * N" using k0 kN by (intro mult_mono) simp_all
  have "z * z \<le> (N * N) * (S * S)" unfolding z2 using kk s(1) by (intro mult_right_mono)
  then have "rho * rho + z * z \<le> (N * N) * (S * S + C * C)" by (simp add: r2 algebra_simps)
  also have "\<dots> = N * N" by (simp add: e)
  also have "\<dots> \<le> 6499594 * 6499594" using N1 k0 kN by (intro mult_mono) simp_all
  finally show "rho * rho + z * z \<le> 6499594 * 6499594" .
  have "0 \<le> C * C" by simp
  then have "(k * k) * (C * C) \<le> rho * rho" unfolding r2 using kk by (intro mult_right_mono)
  then have "(k * k) * (S * S + C * C) \<le> rho * rho + z * z" by (simp add: z2 algebra_simps)
  then have "k * k \<le> rho * rho + z * z" by (simp add: e)
  moreover have "6335438 * 6335438 \<le> k * k" using k0 by (intro mult_mono) simp_all
  ultimately show "6335438 * 6335438 \<le> rho * rho + z * z" by linarith
qed

lemma zhu_g_alt:
  "zhu_g rho z = rho * rho + (1 - e2 WGS84_new) * (z * z)
                   - e2 WGS84_new * (a2 WGS84_new - b2 WGS84_new)"
  by (simp add: zhu_g_def)

lemma zhu_g_bounds:
  assumes "in_dom S C h" and "rho = fw_r S C h" and "z = fw_z S h"
  shows "398 * 10 ^ 11 \<le> zhu_g rho z" and "zhu_g rho z \<le> 423 * 10 ^ 11"
proof -
  note b = fw_norm_bounds [OF assms]
  have zz: "0 \<le> z * z" and rr: "0 \<le> rho * rho" by simp_all
  have g: "zhu_g rho z = rho * rho + (1 - 0.00669437999014) * (z * z)
      - 0.00669437999014 * (40680631590769 - 40408299984087.05552164)"
    by (simp add: zhu_g_alt WGS84_new_fields)
  have "(398 * 10 ^ 11 :: real) \<le> (1 - 0.00669437999014) * (6335438 * 6335438)
       - 0.00669437999014 * (40680631590769 - 40408299984087.05552164)"
    by simp
  also have "\<dots> \<le> (1 - 0.00669437999014) * (rho * rho + z * z)
       - 0.00669437999014 * (40680631590769 - 40408299984087.05552164)"
    using b(2) by (intro diff_right_mono mult_left_mono) simp_all
  also have "\<dots> \<le> zhu_g rho z"
    unfolding g using rr by (simp add: algebra_simps)
  finally show "398 * 10 ^ 11 \<le> zhu_g rho z" .
  have "zhu_g rho z \<le> rho * rho + z * z" unfolding g using zz by (simp add: algebra_simps)
  with b(1) show "zhu_g rho z \<le> 423 * 10 ^ 11" by simp
qed

lemma zhu_f_alt: "zhu_f z = 54 * b2 WGS84_new * (z * z)"
  by (simp add: zhu_f_def)

lemma zhu_f_bounds:
  assumes "in_dom S C h" and "z = fw_z S h"
  shows "0 \<le> zhu_f z" and "zhu_f z \<le> 54 * 40408299984087.05552164 * (6456753 * 6456753)"
proof -
  note zb = fw_z_bounds [OF assms(1)]
  show "0 \<le> zhu_f z" by (simp add: zhu_f_alt WGS84_new_fields)
  have "54 * 40408299984087.05552164 * (z * z)
      \<le> 54 * 40408299984087.05552164 * (6456753 * 6456753 :: real)"
    using zb(2) unfolding assms(2) by (intro mult_left_mono) simp_all
  then show "zhu_f z \<le> 54 * 40408299984087.05552164 * (6456753 * 6456753)"
    by (simp add: zhu_f_alt WGS84_new_fields)
qed

lemma zhu_c_alt:
  "zhu_c rho z = e2 WGS84_new * e2 WGS84_new * zhu_f z * (rho * rho)
                   / (zhu_g rho z * zhu_g rho z * zhu_g rho z)"
  by (simp add: zhu_c_def)

lemma zhu_c_bounds:
  assumes "in_dom S C h" and "rho = fw_r S C h" and "z = fw_z S h"
  shows "0 \<le> zhu_c rho z" and "zhu_c rho z \<le> 3 / 1000"
proof -
  note g = zhu_g_bounds [OF assms] and f = zhu_f_bounds [OF assms(1,3)]
    and r = fw_r_bounds [OF assms(1)]
  have gp: "0 < zhu_g rho z" using g(1) by simp
  have g3: "(398 * 10 ^ 11) * (398 * 10 ^ 11) * (398 * 10 ^ 11)
      \<le> zhu_g rho z * zhu_g rho z * zhu_g rho z"
    using g(1) by (intro mult_mono) simp_all
  have r2: "rho * rho \<le> 6499594 * 6499594"
    unfolding assms(2) using r by (intro mult_mono) simp_all
  define num where "num = e2 WGS84_new * e2 WGS84_new * zhu_f z * (rho * rho)"
  have c: "zhu_c rho z = num / (zhu_g rho z * zhu_g rho z * zhu_g rho z)"
    by (simp add: zhu_c_alt num_def)
  have e2p: "0 \<le> e2 WGS84_new * e2 WGS84_new" by simp
  have ef: "0 \<le> e2 WGS84_new * e2 WGS84_new * zhu_f z"
    using e2p f(1) by (rule mult_nonneg_nonneg)
  have n0: "0 \<le> num" unfolding num_def using ef by (rule mult_nonneg_nonneg) simp
  have a1: "e2 WGS84_new * e2 WGS84_new * zhu_f z
      \<le> e2 WGS84_new * e2 WGS84_new * (54 * 40408299984087.05552164 * (6456753 * 6456753))"
    using f(2) e2p by (rule mult_left_mono)
  have "num \<le> e2 WGS84_new * e2 WGS84_new
      * (54 * 40408299984087.05552164 * (6456753 * 6456753)) * (6499594 * 6499594)"
    unfolding num_def using a1 r2 by (rule mult_mono) (simp_all add: WGS84_new_fields)
  also have "\<dots> \<le> 3 / 1000 * ((398 * 10 ^ 11) * (398 * 10 ^ 11) * (398 * 10 ^ 11))"
    by (simp add: WGS84_new_fields)
  also have "\<dots> \<le> 3 / 1000 * (zhu_g rho z * zhu_g rho z * zhu_g rho z)"
    using g3 by (intro mult_left_mono) simp_all
  finally have nu: "num \<le> 3 / 1000 * (zhu_g rho z * zhu_g rho z * zhu_g rho z)" .
  have g3p: "0 < zhu_g rho z * zhu_g rho z * zhu_g rho z" using gp by simp
  show "0 \<le> zhu_c rho z" unfolding c using n0 g3p by simp
  show "zhu_c rho z \<le> 3 / 1000" unfolding c using nu g3p by (simp add: pos_divide_le_eq)
qed

lemma zhu_p0_facts:
  assumes "in_dom S C h" and "rho = fw_r S C h" and "z = fw_z S h"
  shows "1 \<le> zhu_s rho z" and "3 \<le> zhu_p0 rho z" and "zhu_p0 rho z \<le> 3001 / 1000"
    and "zhu_p0 rho z * zhu_p0 rho z * (zhu_p0 rho z - 3) = 2 * zhu_c rho z"
proof -
  note c = zhu_c_bounds [OF assms]
  have s: "zhu_s rho z = (1 + zhu_c rho z + sqrt (zhu_c rho z * zhu_c rho z + 2 * zhu_c rho z))
      powr (1 / 3)"
    by (simp add: zhu_s_def)
  have p: "zhu_p0 rho z = zhu_s rho z + 1 / zhu_s rho z + 1" by (simp add: zhu_p0_def)
  note k = cubic_root [OF c(1) s p]
  show "1 \<le> zhu_s rho z" by (rule k(1))
  show "3 \<le> zhu_p0 rho z" by (rule k(2))
  show "zhu_p0 rho z * zhu_p0 rho z * (zhu_p0 rho z - 3) = 2 * zhu_c rho z" by (rule k(3))
  have "zhu_p0 rho z \<le> 3 + 2 * zhu_c rho z / 9" by (rule cubic_root_upper [OF k(2,3)])
  with c(2) show "zhu_p0 rho z \<le> 3001 / 1000" by simp
qed

lemma zhu_relations:
  assumes "in_dom S C h" and "rho = fw_r S C h" and "z = fw_z S h"
  shows "0 \<le> zhu_p rho z" and "1 \<le> zhu_q rho z"
    and "zhu_q rho z * zhu_q rho z = 1 + 2 * (e2 WGS84_new * e2 WGS84_new) * zhu_p rho z"
    and "rho * (zhu_q rho z - 1) = 2 * e2 WGS84_new * zhu_pp rho z"
    and "rho * rho * (zhu_q rho z * zhu_q rho z)
           = rho * rho + 2 * e2 WGS84_new * zhu_al rho z - zhu_g rho z"
    and "zhu_al rho z * zhu_al rho z * (2 * e2 WGS84_new * zhu_al rho z - zhu_g rho z)
           = b2 WGS84_new * (z * z) * (rho * rho)"
proof -
  note g = zhu_g_bounds [OF assms] and p0 = zhu_p0_facts [OF assms]
  have e: "0 < e2 WGS84_new" and B: "0 \<le> b2 WGS84_new" by (simp_all add: WGS84_new_fields)
  have G: "0 < zhu_g rho z" using g(1) by simp
  have P: "zhu_p rho z = zhu_f z / (3 * zhu_p0 rho z * zhu_p0 rho z * zhu_g rho z * zhu_g rho z)"
    by (simp add: zhu_p_def)
  have Q: "zhu_q rho z = sqrt (1 + 2 * (e2 WGS84_new * e2 WGS84_new) * zhu_p rho z)"
    by (simp add: zhu_q_def)
  note k = ferrari_basic [OF e G p0(2) p0(4) zhu_c_alt zhu_f_alt B P Q zhu_al_def zhu_pp_def]
  show "0 \<le> zhu_p rho z" by (rule k(1))
  show "1 \<le> zhu_q rho z" by (rule k(2))
  show "zhu_q rho z * zhu_q rho z = 1 + 2 * (e2 WGS84_new * e2 WGS84_new) * zhu_p rho z"
    by (rule k(3))
  show "rho * (zhu_q rho z - 1) = 2 * e2 WGS84_new * zhu_pp rho z" by (rule k(5))
  show "rho * rho * (zhu_q rho z * zhu_q rho z)
           = rho * rho + 2 * e2 WGS84_new * zhu_al rho z - zhu_g rho z" by (rule k(6))
  show "zhu_al rho z * zhu_al rho z * (2 * e2 WGS84_new * zhu_al rho z - zhu_g rho z)
           = b2 WGS84_new * (z * z) * (rho * rho)" by (rule k(7))
qed

lemma forward_quartic:
  fixes ee A2 n h S C rr zs tt M :: real
  assumes "S * S + C * C = 1" and "n * n * (1 - ee * (S * S)) = A2"
    and "rr = (n + h) * C" and "M = n * (1 - ee) + h" and "zs = M * S" and "tt = n * C"
  shows "ee * ee * (tt * tt * tt * tt) - 2 * ee * rr * (tt * tt * tt)
         + (rr * rr + (1 - ee) * (zs * zs) - A2 * (ee * ee)) * (tt * tt)
         + 2 * (A2 * ee) * rr * tt - A2 * (rr * rr) = 0"
  using assms by algebra

lemma zhu_p_q_bounds:
  assumes "in_dom S C h" and "rho = fw_r S C h" and "z = fw_z S h"
  shows "zhu_p rho z \<le> 213 / 100" and "zhu_q rho z \<le> 10001 / 10000"
proof -
  note g = zhu_g_bounds [OF assms] and p0 = zhu_p0_facts [OF assms]
    and f = zhu_f_bounds [OF assms(1,3)] and rel = zhu_relations [OF assms]
  have P: "zhu_p rho z = zhu_f z / (3 * zhu_p0 rho z * zhu_p0 rho z * zhu_g rho z * zhu_g rho z)"
    by (simp add: zhu_p_def)
  have d1: "3 * 3 * 3 \<le> 3 * zhu_p0 rho z * zhu_p0 rho z"
    using p0(2) by (intro mult_mono) simp_all
  have d2: "(3 * 3 * 3) * (398 * 10 ^ 11) * (398 * 10 ^ 11)
      \<le> 3 * zhu_p0 rho z * zhu_p0 rho z * zhu_g rho z * zhu_g rho z"
    using d1 g(1) p0(2) by (intro mult_mono) simp_all
  have "zhu_p rho z \<le> 54 * 40408299984087.05552164 * (6456753 * 6456753)
      / ((3 * 3 * 3) * (398 * 10 ^ 11) * (398 * 10 ^ 11))"
    unfolding P using f d2 by (intro frac_le) simp_all
  also have "\<dots> \<le> 213 / 100" by simp
  finally show p: "zhu_p rho z \<le> 213 / 100" .
  have "2 * (e2 WGS84_new * e2 WGS84_new) * zhu_p rho z
      \<le> 2 * (e2 WGS84_new * e2 WGS84_new) * (213 / 100)"
    using p by (intro mult_left_mono) simp_all
  then have "1 + 2 * (e2 WGS84_new * e2 WGS84_new) * zhu_p rho z \<le> (10001 / 10000)\<^sup>2"
    by (simp add: WGS84_new_fields power2_eq_square)
  then have "sqrt (1 + 2 * (e2 WGS84_new * e2 WGS84_new) * zhu_p rho z) \<le> 10001 / 10000"
    by (intro real_le_lsqrt) simp_all
  then show "zhu_q rho z \<le> 10001 / 10000" by (simp add: zhu_q_def)
qed

lemma zhu_al_bounds:
  assumes "in_dom S C h" and "rho = fw_r S C h" and "z = fw_z S h"
  shows "297 * 10 ^ 13 \<le> zhu_al rho z" and "zhu_al rho z \<le> 317 * 10 ^ 13"
proof -
  note g = zhu_g_bounds [OF assms] and p0 = zhu_p0_facts [OF assms]
  have "(398 * 10 ^ 11) * 3 \<le> zhu_g rho z * zhu_p0 rho z"
    using g(1) p0(2) by (intro mult_mono) simp_all
  then have "(398 * 10 ^ 11) * 3 / (6 * e2 WGS84_new) \<le> zhu_al rho z"
    unfolding zhu_al_def by (intro divide_right_mono) (simp_all add: WGS84_new_fields)
  then show "297 * 10 ^ 13 \<le> zhu_al rho z" by (simp add: WGS84_new_fields)
  have "zhu_g rho z * zhu_p0 rho z \<le> (423 * 10 ^ 11) * (3001 / 1000)"
    using g p0 by (intro mult_mono) simp_all
  then have "zhu_al rho z \<le> (423 * 10 ^ 11) * (3001 / 1000) / (6 * e2 WGS84_new)"
    unfolding zhu_al_def by (intro divide_right_mono) (simp_all add: WGS84_new_fields)
  then show "zhu_al rho z \<le> 317 * 10 ^ 13" by (simp add: WGS84_new_fields)
qed

lemma zhu_gamma:
  assumes "in_dom S C h" and "rho = fw_r S C h" and "z = fw_z S h"
  shows "zhu_q rho z * zhu_ga rho z - zhu_al rho z
           = a2 WGS84_new * e2 WGS84_new - (zhu_q rho z - 1) * w_D / 2"
    and "zhu_q rho z * zhu_q rho z
           * (zhu_al rho z * zhu_al rho z + a2 WGS84_new * (rho * rho))
         - (zhu_al rho z + a2 WGS84_new * e2 WGS84_new)
           * (zhu_al rho z + a2 WGS84_new * e2 WGS84_new)
         = w_D * (a2 WGS84_new * e2 WGS84_new - z * z)"
proof -
  note rel = zhu_relations [OF assms] and r = fw_r_bounds [OF assms(1)]
  have e: "0 < e2 WGS84_new" by (simp add: WGS84_new_fields)
  have R: "zhu_rad rho z = 1 / 2 * a2 WGS84_new * (1 + 1 / zhu_q rho z)
      - zhu_p rho z * (1 - e2 WGS84_new) * (z * z) / (zhu_q rho z + zhu_q rho z * zhu_q rho z)
      - 1 / 2 * zhu_p rho z * (rho * rho)"
    by (simp add: zhu_rad_def)
  have "zhu_q rho z * zhu_ga rho z - zhu_al rho z
      = a2 WGS84_new * e2 WGS84_new
        - (zhu_q rho z - 1) * (a2 WGS84_new - b2 WGS84_new - a2 WGS84_new * e2 WGS84_new) / 2"
    by (rule ferrari_gamma [OF e rel(2) rel(3) rel(4) rel(5) zhu_g_alt R zhu_ga_def])
  then show "zhu_q rho z * zhu_ga rho z - zhu_al rho z
           = a2 WGS84_new * e2 WGS84_new - (zhu_q rho z - 1) * w_D / 2"
    by (simp add: w_D_def algebra_simps)
  have rp: "0 < rho" using r(3) by (simp add: assms(2))
  have "zhu_q rho z * zhu_q rho z
           * (zhu_al rho z * zhu_al rho z + a2 WGS84_new * (rho * rho))
         - (zhu_al rho z + a2 WGS84_new * e2 WGS84_new)
           * (zhu_al rho z + a2 WGS84_new * e2 WGS84_new)
      = z * z * (b2 WGS84_new - a2 WGS84_new * (1 - e2 WGS84_new))
        + a2 WGS84_new * e2 WGS84_new
          * (a2 WGS84_new - b2 WGS84_new - a2 WGS84_new * e2 WGS84_new)"
    by (rule ferrari_resolvent [OF rp rel(5) zhu_g_alt rel(6)])
  then show "zhu_q rho z * zhu_q rho z
           * (zhu_al rho z * zhu_al rho z + a2 WGS84_new * (rho * rho))
         - (zhu_al rho z + a2 WGS84_new * e2 WGS84_new)
           * (zhu_al rho z + a2 WGS84_new * e2 WGS84_new)
         = w_D * (a2 WGS84_new * e2 WGS84_new - z * z)"
    by (simp add: w_D_def algebra_simps)
qed

section \<open>The quartic at the forward point\<close>

text \<open>
  For \<open>b2 = a2 * (1 - e2)\<close> the distance \<open>fw_t\<close> would be a root of the quartic that the
  inverse transform solves. With the fields as they are it misses the root by a residue
  that is bounded here, and so is the distance of the local \<^verbatim>\<open>uv\<close> from its exact
  value \<open>fw_M * C\<close>.
\<close>

lemma zhu_Pi_eq:
  assumes "in_dom S C h" and "rho = fw_r S C h" and "z = fw_z S h" and "t = fw_t S C"
  shows "zhu_Pi rho z t =
      (zhu_g rho z - (rho * rho + (1 - e2 WGS84_new) * ((fw_M S h * S) * (fw_M S h * S))
                       - a2 WGS84_new * (e2 WGS84_new * e2 WGS84_new))) * (t * t)
      + 2 * rho * (zhu_q rho z * zhu_ga rho z - zhu_al rho z
                     - a2 WGS84_new * e2 WGS84_new) * t
      + (zhu_al rho z * zhu_al rho z - zhu_ga rho z * zhu_ga rho z
           + a2 WGS84_new * (rho * rho))"
proof -
  note rel = zhu_relations [OF assms(1-3)] and n = fw_n_bounds [OF assms(1)]
  have e: "S * S + C * C = 1" using assms(1) by (simp add: in_dom_def)
  have q: "e2 WGS84_new * e2 WGS84_new * (t * t * t * t) - 2 * e2 WGS84_new * rho * (t * t * t)
         + (rho * rho + (1 - e2 WGS84_new) * ((fw_M S h * S) * (fw_M S h * S))
              - a2 WGS84_new * (e2 WGS84_new * e2 WGS84_new)) * (t * t)
         + 2 * (a2 WGS84_new * e2 WGS84_new) * rho * t - a2 WGS84_new * (rho * rho) = 0"
    by (rule forward_quartic [OF e n(3) _ fw_M_def refl])
       (simp_all add: assms fw_r_def fw_t_def)
  have p: "zhu_Pi rho z t =
      e2 WGS84_new * e2 WGS84_new * (t * t * t * t) - 2 * e2 WGS84_new * rho * (t * t * t)
      + zhu_g rho z * (t * t)
      + 2 * rho * (zhu_q rho z * zhu_ga rho z - zhu_al rho z) * t
      + (zhu_al rho z * zhu_al rho z - zhu_ga rho z * zhu_ga rho z)"
    unfolding zhu_Pi_def zhu_q1_def
    using ferrari_product [OF rel(4) rel(5) zhu_ga_def, of t] by (simp add: algebra_simps)
  show ?thesis using p q by algebra
qed

lemma zhu_g_diff:
  assumes "in_dom S C h" and "rho = fw_r S C h" and "z = fw_z S h"
  shows "zhu_g rho z - (rho * rho + (1 - e2 WGS84_new) * ((fw_M S h * S) * (fw_M S h * S))
                       - a2 WGS84_new * (e2 WGS84_new * e2 WGS84_new))
      = - ((1 - e2 WGS84_new) * (S * S) * fw_mu S * (2 * fw_M S h - fw_mu S))
        - e2 WGS84_new * w_D"
  by (simp add: zhu_g_alt assms(3) fw_z_alt w_D_def algebra_simps)

lemma zhu_g_diff_bounds:
  assumes "in_dom S C h" and "rho = fw_r S C h" and "z = fw_z S h"
  shows "- 1164 \<le> zhu_g rho z - (rho * rho + (1 - e2 WGS84_new) * ((fw_M S h * S) * (fw_M S h * S))
                       - a2 WGS84_new * (e2 WGS84_new * e2 WGS84_new))"
    and "zhu_g rho z - (rho * rho + (1 - e2 WGS84_new) * ((fw_M S h * S) * (fw_M S h * S))
                       - a2 WGS84_new * (e2 WGS84_new * e2 WGS84_new)) \<le> 0"
proof -
  note m = fw_M_bounds [OF assms(1)] and mu = fw_mu_bounds [OF assms(1)]
    and s = in_dom_S2 [OF assms(1)]
  define X where "X = (1 - e2 WGS84_new) * (S * S) * fw_mu S * (2 * fw_M S h - fw_mu S)"
  have k0: "0 \<le> 2 * fw_M S h - fw_mu S" and k1: "2 * fw_M S h - fw_mu S \<le> 2 * 6456753"
    using m mu by simp_all
  have a0: "0 \<le> (1 - e2 WGS84_new) * (S * S)" using s(1) by (simp add: WGS84_new_fields)
  have a1: "(1 - e2 WGS84_new) * (S * S) \<le> (1 - e2 WGS84_new) * 1"
    using s(2) by (intro mult_left_mono) (simp_all add: WGS84_new_fields)
  have b0: "0 \<le> (1 - e2 WGS84_new) * (S * S) * fw_mu S" using a0 mu(1) by simp
  have mu0: "0 \<le> fw_mu S" using mu(1) by simp
  have c0: "0 \<le> (1 - e2 WGS84_new) * 1" by (simp add: WGS84_new_fields)
  have b1: "(1 - e2 WGS84_new) * (S * S) * fw_mu S \<le> (1 - e2 WGS84_new) * 1 * (904 / 10000000)"
    using a1 mu(2) c0 mu0 by (rule mult_mono)
  have X0: "0 \<le> X" unfolding X_def using b0 k0 by (rule mult_nonneg_nonneg)
  have c1: "0 \<le> (1 - e2 WGS84_new) * 1 * (904 / 10000000)" by (simp add: WGS84_new_fields)
  have "X \<le> (1 - e2 WGS84_new) * 1 * (904 / 10000000) * (2 * 6456753)"
    unfolding X_def using b1 k1 c1 k0 by (rule mult_mono)
  then have X1: "X \<le> 1160" by (simp add: WGS84_new_fields)
  have w: "0 \<le> e2 WGS84_new * w_D" "e2 WGS84_new * w_D \<le> 4"
    by (simp_all add: w_D_val WGS84_new_fields)
  have d: "zhu_g rho z - (rho * rho + (1 - e2 WGS84_new) * ((fw_M S h * S) * (fw_M S h * S))
                       - a2 WGS84_new * (e2 WGS84_new * e2 WGS84_new)) = - X - e2 WGS84_new * w_D"
    unfolding X_def by (rule zhu_g_diff [OF assms])
  show "- 1164 \<le> zhu_g rho z - (rho * rho + (1 - e2 WGS84_new) * ((fw_M S h * S) * (fw_M S h * S))
                       - a2 WGS84_new * (e2 WGS84_new * e2 WGS84_new))"
    unfolding d using X1 w by linarith
  show "zhu_g rho z - (rho * rho + (1 - e2 WGS84_new) * ((fw_M S h * S) * (fw_M S h * S))
                       - a2 WGS84_new * (e2 WGS84_new * e2 WGS84_new)) \<le> 0"
    unfolding d using X0 w by linarith
qed

lemma zhu_rho1_bounds:
  assumes "in_dom S C h" and "rho = fw_r S C h" and "z = fw_z S h"
  shows "- (288 / 10000) \<le> zhu_q rho z * zhu_ga rho z - zhu_al rho z - a2 WGS84_new * e2 WGS84_new"
    and "zhu_q rho z * zhu_ga rho z - zhu_al rho z - a2 WGS84_new * e2 WGS84_new \<le> 0"
proof -
  note rel = zhu_relations [OF assms] and q = zhu_p_q_bounds [OF assms]
    and g = zhu_gamma [OF assms]
  have k: "zhu_q rho z * zhu_ga rho z - zhu_al rho z - a2 WGS84_new * e2 WGS84_new
      = - ((zhu_q rho z - 1) * (w_D / 2))"
    using g(1) by simp
  have q0: "0 \<le> zhu_q rho z - 1" and q1: "zhu_q rho z - 1 \<le> 1 / 10000"
    using rel(2) q(2) by simp_all
  have w: "0 \<le> w_D / 2" by (simp add: w_D_val)
  have "(zhu_q rho z - 1) * (w_D / 2) \<le> 1 / 10000 * (w_D / 2)"
    using q1 w by (rule mult_right_mono)
  also have "\<dots> \<le> 288 / 10000" by (simp add: w_D_val)
  finally have u: "(zhu_q rho z - 1) * (w_D / 2) \<le> 288 / 10000" .
  have l: "0 \<le> (zhu_q rho z - 1) * (w_D / 2)" using q0 w by (rule mult_nonneg_nonneg)
  show "- (288 / 10000) \<le> zhu_q rho z * zhu_ga rho z - zhu_al rho z - a2 WGS84_new * e2 WGS84_new"
    unfolding k using u by simp
  show "zhu_q rho z * zhu_ga rho z - zhu_al rho z - a2 WGS84_new * e2 WGS84_new \<le> 0"
    unfolding k using l by simp
qed

lemma zhu_ga_bounds:
  assumes "in_dom S C h" and "rho = fw_r S C h" and "z = fw_z S h"
  shows "296 * 10 ^ 13 \<le> zhu_ga rho z" and "zhu_ga rho z \<le> 318 * 10 ^ 13"
proof -
  note rel = zhu_relations [OF assms] and q = zhu_p_q_bounds [OF assms]
    and r1 = zhu_rho1_bounds [OF assms] and al = zhu_al_bounds [OF assms]
  have Ae: "1 \<le> a2 WGS84_new * e2 WGS84_new" "a2 WGS84_new * e2 WGS84_new \<le> 273 * 10 ^ 9"
    by (simp_all add: WGS84_new_fields)
  have qp: "0 < zhu_q rho z" using rel(2) by simp
  have l: "zhu_al rho z \<le> zhu_q rho z * zhu_ga rho z" using r1(1) Ae(1) by linarith
  have u: "zhu_q rho z * zhu_ga rho z \<le> zhu_al rho z + a2 WGS84_new * e2 WGS84_new"
    using r1(2) by simp
  have g0: "0 \<le> zhu_ga rho z"
  proof (rule ccontr)
    assume "\<not> 0 \<le> zhu_ga rho z"
    then have "zhu_q rho z * zhu_ga rho z < 0" using qp by (simp add: mult_pos_neg)
    with l al(1) show False by simp
  qed
  have "zhu_q rho z * zhu_ga rho z \<le> (10001 / 10000) * zhu_ga rho z"
    using q(2) g0 by (rule mult_right_mono)
  with l al(1) have "297 * 10 ^ 13 \<le> (10001 / 10000) * zhu_ga rho z" by linarith
  then show "296 * 10 ^ 13 \<le> zhu_ga rho z" by simp
  have "1 * zhu_ga rho z \<le> zhu_q rho z * zhu_ga rho z"
    using rel(2) g0 by (rule mult_right_mono)
  with u al(2) Ae(2) show "zhu_ga rho z \<le> 318 * 10 ^ 13" by simp
qed

lemma zhu_q1_bound:
  assumes "in_dom S C h" and "rho = fw_r S C h" and "z = fw_z S h" and "t = fw_t S C"
  shows "58 * 10 ^ 14 \<le> zhu_q1 rho z t"
proof -
  note rel = zhu_relations [OF assms(1-3)] and q = zhu_p_q_bounds [OF assms(1-3)]
    and al = zhu_al_bounds [OF assms(1-3)] and ga = zhu_ga_bounds [OF assms(1-3)]
    and r = fw_r_bounds [OF assms(1)] and tb = fw_t_bounds [OF assms(1)]
  have rp: "0 \<le> rho" "rho \<le> 6499594" using r by (simp_all add: assms(2))
  have tp: "0 \<le> t" "t \<le> 6399594" using tb by (simp_all add: assms(4))
  have q2: "1 + zhu_q rho z \<le> 1 + 10001 / 10000" "0 \<le> 1 + zhu_q rho z"
    using q(2) rel(2) by simp_all
  have "rho * (1 + zhu_q rho z) \<le> 6499594 * (1 + 10001 / 10000)"
    using rp(2) q2(1) _ q2(2) by (rule mult_mono) simp
  then have "rho * (1 + zhu_q rho z) * t \<le> 6499594 * (1 + 10001 / 10000) * 6399594"
    using tp(2) _ tp(1) by (rule mult_mono) simp
  moreover have "0 \<le> e2 WGS84_new * (t * t)" by (simp add: WGS84_new_fields)
  ultimately show ?thesis unfolding zhu_q1_def using al(1) ga(1) by simp
qed

lemma zhu_rho2_bound:
  assumes "in_dom S C h" and "rho = fw_r S C h" and "z = fw_z S h"
  shows "\<bar>zhu_al rho z * zhu_al rho z - zhu_ga rho z * zhu_ga rho z
           + a2 WGS84_new * (rho * rho)\<bar> \<le> 25 * 10 ^ 15"
proof -
  note rel = zhu_relations [OF assms] and g = zhu_gamma [OF assms]
    and r1 = zhu_rho1_bounds [OF assms] and al = zhu_al_bounds [OF assms]
    and zb = fw_z_bounds [OF assms(1)]
  define r1v where "r1v = zhu_q rho z * zhu_ga rho z - zhu_al rho z - a2 WGS84_new * e2 WGS84_new"
  define r2v where "r2v = zhu_al rho z * zhu_al rho z - zhu_ga rho z * zhu_ga rho z
           + a2 WGS84_new * (rho * rho)"
  define Ae where "Ae = a2 WGS84_new * e2 WGS84_new"
  define X where "X = w_D * (Ae - z * z) - 2 * r1v * (zhu_al rho z + Ae) - r1v * r1v"
  have Aeb: "0 \<le> Ae" "Ae \<le> 273 * 10 ^ 9" by (simp_all add: Ae_def WGS84_new_fields)
  have qg: "zhu_q rho z * zhu_ga rho z = zhu_al rho z + Ae + r1v" by (simp add: r1v_def Ae_def)
  have res: "zhu_q rho z * zhu_q rho z * (zhu_al rho z * zhu_al rho z + a2 WGS84_new * (rho * rho))
         - (zhu_al rho z + Ae) * (zhu_al rho z + Ae) = w_D * (Ae - z * z)"
    using g(2) by (simp add: Ae_def)
  have X: "zhu_q rho z * zhu_q rho z * r2v = X"
    unfolding X_def r2v_def using qg res by algebra
  have r1b: "- (288 / 10000) \<le> r1v" "r1v \<le> 0" using r1 by (simp_all add: r1v_def)
  have z2: "0 \<le> z * z" "z * z \<le> 6456753 * 6456753" using zb(2) by (simp_all add: assms(3))
  have w: "0 \<le> w_D" "w_D \<le> 575" by (simp_all add: w_D_val)
  have t1: "\<bar>w_D * (Ae - z * z)\<bar> \<le> 575 * (6456753 * 6456753)"
  proof -
    define zz where "zz = z * z"
    have "0 \<le> zz" "zz \<le> 41689659303009" "0 \<le> Ae" "Ae \<le> 273000000000"
      using z2(2) Aeb by (simp_all add: zz_def)
    then have "\<bar>Ae - zz\<bar> \<le> 41689659303009" by linarith
    then have "\<bar>Ae - z * z\<bar> \<le> 6456753 * 6456753" by (simp add: zz_def)
    then have "w_D * \<bar>Ae - z * z\<bar> \<le> 575 * (6456753 * 6456753)"
      using w by (intro mult_mono) simp_all
    then show ?thesis using w(1) by (simp add: abs_mult)
  qed
  have t2: "\<bar>2 * r1v * (zhu_al rho z + Ae)\<bar> \<le> 2 * (288 / 10000) * (318 * 10 ^ 13)"
  proof -
    have a: "\<bar>2 * r1v\<bar> \<le> 2 * (288 / 10000)" using r1b by (simp add: abs_le_iff)
    have b: "\<bar>zhu_al rho z + Ae\<bar> \<le> 318 * 10 ^ 13" using al Aeb by (simp add: abs_le_iff)
    have "\<bar>2 * r1v\<bar> * \<bar>zhu_al rho z + Ae\<bar> \<le> 2 * (288 / 10000) * (318 * 10 ^ 13)"
      using a b by (rule mult_mono) simp_all
    then show ?thesis by (simp only: abs_mult)
  qed
  have t3: "\<bar>r1v * r1v\<bar> \<le> 1"
  proof -
    have a: "\<bar>r1v\<bar> \<le> 1" using r1b by (simp add: abs_le_iff)
    have "\<bar>r1v\<bar> * \<bar>r1v\<bar> \<le> 1 * 1" using a a by (rule mult_mono) simp_all
    then show ?thesis by (simp add: abs_mult)
  qed
  have "\<bar>X\<bar> \<le> \<bar>w_D * (Ae - z * z)\<bar> + \<bar>2 * r1v * (zhu_al rho z + Ae)\<bar> + \<bar>r1v * r1v\<bar>"
    unfolding X_def by linarith
  also have "\<dots> \<le> 575 * (6456753 * 6456753) + 2 * (288 / 10000) * (318 * 10 ^ 13) + 1"
    using t1 t2 t3 by linarith
  also have "\<dots> \<le> 25 * 10 ^ 15" by simp
  finally have Xb: "\<bar>X\<bar> \<le> 25 * 10 ^ 15" .
  have q2: "1 \<le> zhu_q rho z * zhu_q rho z"
    using rel(2) mult_mono [of 1 "zhu_q rho z" 1 "zhu_q rho z"] by simp
  have "\<bar>r2v\<bar> = 1 * \<bar>r2v\<bar>" by simp
  also have "\<dots> \<le> (zhu_q rho z * zhu_q rho z) * \<bar>r2v\<bar>"
    using q2 by (rule mult_right_mono) simp
  also have "\<dots> = \<bar>X\<bar>" using q2 by (simp add: abs_mult flip: X)
  finally show ?thesis using Xb by (simp add: r2v_def)
qed

lemma zhu_Pi_bound:
  assumes "in_dom S C h" and "rho = fw_r S C h" and "z = fw_z S h" and "t = fw_t S C"
  shows "\<bar>zhu_Pi rho z t\<bar> \<le> 73 * 10 ^ 15"
proof -
  note gd = zhu_g_diff_bounds [OF assms(1-3)] and r1 = zhu_rho1_bounds [OF assms(1-3)]
    and r2 = zhu_rho2_bound [OF assms(1-3)]
    and r = fw_r_bounds [OF assms(1)] and tb = fw_t_bounds [OF assms(1)]
  define gdv where "gdv = zhu_g rho z
      - (rho * rho + (1 - e2 WGS84_new) * ((fw_M S h * S) * (fw_M S h * S))
           - a2 WGS84_new * (e2 WGS84_new * e2 WGS84_new))"
  define r1v where "r1v = zhu_q rho z * zhu_ga rho z - zhu_al rho z - a2 WGS84_new * e2 WGS84_new"
  define r2v where "r2v = zhu_al rho z * zhu_al rho z - zhu_ga rho z * zhu_ga rho z
           + a2 WGS84_new * (rho * rho)"
  have P: "zhu_Pi rho z t = gdv * (t * t) + 2 * rho * r1v * t + r2v"
    unfolding gdv_def r1v_def r2v_def by (rule zhu_Pi_eq [OF assms])
  have rp: "0 \<le> rho" "rho \<le> 6499594" using r by (simp_all add: assms(2))
  have tp: "0 \<le> t" "t \<le> 6399594" using tb by (simp_all add: assms(4))
  have tt: "\<bar>t * t\<bar> \<le> 6399594 * 6399594"
  proof -
    have "t * t \<le> 6399594 * 6399594" using tp(2) tp(2) _ tp(1) by (rule mult_mono) simp
    then show ?thesis by simp
  qed
  have a1: "\<bar>gdv * (t * t)\<bar> \<le> 1164 * (6399594 * 6399594)"
  proof -
    have "\<bar>gdv\<bar> \<le> 1164" using gd by (simp add: gdv_def abs_le_iff)
    then have "\<bar>gdv\<bar> * \<bar>t * t\<bar> \<le> 1164 * (6399594 * 6399594)"
      using tt by (rule mult_mono) simp_all
    then show ?thesis by (simp only: abs_mult)
  qed
  have a2: "\<bar>2 * rho * r1v * t\<bar> \<le> 2 * 6499594 * (288 / 10000) * 6399594"
  proof -
    have x: "\<bar>2 * rho\<bar> \<le> 2 * 6499594" using rp by simp
    have y: "\<bar>r1v\<bar> \<le> 288 / 10000" using r1 by (simp add: r1v_def abs_le_iff)
    have z: "\<bar>t\<bar> \<le> 6399594" using tp by simp
    have "\<bar>2 * rho\<bar> * \<bar>r1v\<bar> \<le> 2 * 6499594 * (288 / 10000)"
      using x y by (rule mult_mono) simp_all
    then have "\<bar>2 * rho\<bar> * \<bar>r1v\<bar> * \<bar>t\<bar> \<le> 2 * 6499594 * (288 / 10000) * 6399594"
      using z by (rule mult_mono) simp_all
    then show ?thesis by (simp only: abs_mult)
  qed
  have "\<bar>zhu_Pi rho z t\<bar> \<le> \<bar>gdv * (t * t)\<bar> + \<bar>2 * rho * r1v * t\<bar> + \<bar>r2v\<bar>"
    unfolding P by linarith
  also have "\<dots> \<le> 1164 * (6399594 * 6399594) + 2 * 6499594 * (288 / 10000) * 6399594
      + 25 * 10 ^ 15"
    using a1 a2 r2 unfolding r2v_def by linarith
  also have "\<dots> \<le> 73 * 10 ^ 15" by simp
  finally show ?thesis .
qed

lemma zhu_eK_bound:
  assumes "in_dom S C h" and "rho = fw_r S C h" and "z = fw_z S h" and "t = fw_t S C"
  shows "e2 WGS84_new * \<bar>(t + zhu_pp rho z) * (t + zhu_pp rho z) - zhu_rad rho z\<bar> \<le> 1259 / 100"
proof -
  define K where "K = (t + zhu_pp rho z) * (t + zhu_pp rho z) - zhu_rad rho z"
  note q1 = zhu_q1_bound [OF assms] and Pi = zhu_Pi_bound [OF assms]
  have e: "0 \<le> e2 WGS84_new" by (simp add: WGS84_new_fields)
  have q1p: "0 < zhu_q1 rho z t" using q1 by simp
  have "zhu_Pi rho z t = zhu_q1 rho z t * (e2 WGS84_new * K)"
    by (simp add: zhu_Pi_def K_def)
  then have "\<bar>zhu_Pi rho z t\<bar> = zhu_q1 rho z t * (e2 WGS84_new * \<bar>K\<bar>)"
    using q1p e by (simp add: abs_mult)
  then have P: "zhu_q1 rho z t * (e2 WGS84_new * \<bar>K\<bar>) \<le> 73 * 10 ^ 15" using Pi by simp
  have nn: "0 \<le> e2 WGS84_new * \<bar>K\<bar>" using e by simp
  have "58 * 10 ^ 14 * (e2 WGS84_new * \<bar>K\<bar>) \<le> zhu_q1 rho z t * (e2 WGS84_new * \<bar>K\<bar>)"
    using q1 nn by (rule mult_right_mono)
  then have "58 * 10 ^ 14 * (e2 WGS84_new * \<bar>K\<bar>) \<le> 73 * 10 ^ 15" using P by linarith
  then have "e2 WGS84_new * \<bar>K\<bar> \<le> 1259 / 100" by (simp add: mult.commute)
  then show ?thesis by (simp add: K_def)
qed

lemma zhu_pp_nonneg:
  assumes "in_dom S C h" and "rho = fw_r S C h" and "z = fw_z S h"
  shows "0 \<le> zhu_pp rho z"
proof -
  note rel = zhu_relations [OF assms] and r = fw_r_bounds [OF assms(1)]
  have "0 \<le> rho" using r(3) by (simp add: assms(2))
  moreover have "0 \<le> e2 WGS84_new" by (simp add: WGS84_new_fields)
  moreover have "0 < 1 + zhu_q rho z" using rel(2) by linarith
  ultimately show ?thesis using rel(1) by (simp add: zhu_pp_def)
qed

lemma zhu_rad_pos:
  assumes "in_dom S C h" and "rho = fw_r S C h" and "z = fw_z S h"
  shows "50000000 \<le> zhu_rad rho z"
proof -
  define t where "t = fw_t S C"
  define K where "K = (t + zhu_pp rho z) * (t + zhu_pp rho z) - zhu_rad rho z"
  note eK = zhu_eK_bound [OF assms t_def] and pp = zhu_pp_nonneg [OF assms]
    and tb = fw_t_bounds [OF assms(1)]
  have "(669 / 100000) * \<bar>K\<bar> \<le> e2 WGS84_new * \<bar>K\<bar>"
    by (rule mult_right_mono) (simp_all add: WGS84_new_fields)
  then have K: "\<bar>K\<bar> \<le> 1882" using eK by (simp add: K_def)
  have t: "7086 \<le> t" using tb(3) by (simp add: t_def)
  have "7086 * 7086 \<le> t * t" using t t by (rule mult_mono) (use t in simp_all)
  also have "\<dots> \<le> (t + zhu_pp rho z) * (t + zhu_pp rho z)"
  proof (rule mult_mono)
    show "t \<le> t + zhu_pp rho z" "t \<le> t + zhu_pp rho z" using pp by simp_all
    show "0 \<le> t + zhu_pp rho z" "0 \<le> t" using pp t by simp_all
  qed
  finally have "7086 * 7086 \<le> (t + zhu_pp rho z) * (t + zhu_pp rho z)" .
  moreover have "zhu_rad rho z = (t + zhu_pp rho z) * (t + zhu_pp rho z) - K" by (simp add: K_def)
  ultimately show ?thesis using K by linarith
qed

lemma zhu_uv_delta:
  assumes "in_dom S C h" and "rho = fw_r S C h" and "z = fw_z S h"
  shows "\<bar>zhu_uv rho z - fw_M S h * C\<bar> * fw_t S C \<le> 1259 / 100"
proof -
  define t where "t = fw_t S C"
  define K where "K = (t + zhu_pp rho z) * (t + zhu_pp rho z) - zhu_rad rho z"
  define sr where "sr = sqrt (zhu_rad rho z)"
  define De where "De = zhu_uv rho z - fw_M S h * C"
  note eK = zhu_eK_bound [OF assms t_def] and pp = zhu_pp_nonneg [OF assms]
    and tb = fw_t_bounds [OF assms(1)] and rad = zhu_rad_pos [OF assms]
  have t: "0 < t" using tb(3) by (simp add: t_def)
  have sr0: "0 \<le> sr" using rad by (simp add: sr_def)
  have sr2: "sr * sr = zhu_rad rho z" using rad by (simp add: sr_def)
  have r0: "zhu_r0 rho z = - zhu_pp rho z + sr"
    by (simp add: zhu_r0_def zhu_pp_def sr_def)
  have ra: "rho - e2 WGS84_new * t = fw_M S h * C"
    using fw_r_alt [of S C h] by (simp add: assms(2) t_def)
  have "De = rho - e2 WGS84_new * (- zhu_pp rho z + sr) - fw_M S h * C"
    by (simp only: De_def zhu_uv_def r0)
  then have De: "De = - (e2 WGS84_new * (sr - (t + zhu_pp rho z)))"
    using ra by (simp add: algebra_simps)
  have "(sr - (t + zhu_pp rho z)) * (sr + (t + zhu_pp rho z)) = - K"
    using sr2 by (simp add: K_def algebra_simps)
  then have "De * (sr + (t + zhu_pp rho z)) = e2 WGS84_new * K"
    unfolding De by algebra
  then have "\<bar>De\<bar> * \<bar>sr + (t + zhu_pp rho z)\<bar> = e2 WGS84_new * \<bar>K\<bar>"
    by (simp add: WGS84_new_fields flip: abs_mult)
  then have prod: "\<bar>De\<bar> * (sr + (t + zhu_pp rho z)) = e2 WGS84_new * \<bar>K\<bar>"
    using sr0 pp t by simp
  have "\<bar>De\<bar> * t \<le> \<bar>De\<bar> * (sr + (t + zhu_pp rho z))"
    using sr0 pp by (intro mult_left_mono) simp_all
  then have "\<bar>De\<bar> * t \<le> 1259 / 100" using prod eK by (simp add: K_def)
  then show ?thesis by (simp add: De_def t_def)
qed

lemma zhu_uv_delta_bounds:
  assumes "in_dom S C h" and "rho = fw_r S C h" and "z = fw_z S h"
  shows "C * \<bar>zhu_uv rho z - fw_M S h * C\<bar> \<le> 198 / 10 ^ 8"
    and "\<bar>zhu_uv rho z - fw_M S h * C\<bar> \<le> 178 / 10 ^ 5"
proof -
  define De where "De = \<bar>zhu_uv rho z - fw_M S h * C\<bar>"
  note d = zhu_uv_delta [OF assms] and tb = fw_t_bounds [OF assms(1)]
  have De0: "0 \<le> De" by (simp add: De_def)
  have dt: "De * fw_t S C \<le> 1259 / 100" using d by (simp add: De_def)
  have "De * (6378137 * C) \<le> De * fw_t S C" using tb(1) De0 by (rule mult_left_mono)
  then have "6378137 * (C * De) \<le> 1259 / 100" using dt by (simp add: mult_ac)
  then have "C * De \<le> 198 / 10 ^ 8" by simp
  then show "C * \<bar>zhu_uv rho z - fw_M S h * C\<bar> \<le> 198 / 10 ^ 8" by (simp add: De_def)
  have "De * 7086 \<le> De * fw_t S C" using tb(3) De0 by (rule mult_left_mono)
  then have "7086 * De \<le> 1259 / 100" using dt by (simp add: mult_ac)
  then have "De \<le> 178 / 10 ^ 5" by simp
  then show "\<bar>zhu_uv rho z - fw_M S h * C\<bar> \<le> 178 / 10 ^ 5" by (simp add: De_def)
qed

section \<open>The recovered altitude\<close>

text \<open>
  The altitude that comes back differs from the one that went in by at most
  \<open>95 / 10 ^ 6\<close> metres. The main part of the difference is \<open>fw_mu * C\<^sup>2\<close>, which
  reaches \<open>w_D / a\<close>, about \<open>9 / 10 ^ 5\<close> metres, on the equator.
\<close>

lemma zhu_u_bound:
  assumes "in_dom S C h" and "rho = fw_r S C h" and "z = fw_z S h"
  shows "- (199 / 10 ^ 8) \<le> fw_mu S + (zhu_u rho z - fw_M S h)"
    and "fw_mu S + (zhu_u rho z - fw_M S h) \<le> 9239 / 10 ^ 8"
    and "6300000 \<le> zhu_u rho z"
proof -
  define M where "M = fw_M S h"
  define mu where "mu = fw_mu S"
  define De where "De = zhu_uv rho z - M * C"
  define U where "U = zhu_u rho z"
  define x where "x = U - M"
  define SS where "SS = S * S"
  define CD where "CD = C * De"
  note dom = in_dom_S2 [OF assms(1)] and Mb = fw_M_bounds [OF assms(1)]
    and mub = fw_mu_bounds [OF assms(1)] and db = zhu_uv_delta_bounds [OF assms]
  have sc: "S * S + C * C = 1" using assms(1) by (simp add: in_dom_def)
  define W where "W = zhu_uv rho z"
  have uv: "W = M * C + De" by (simp add: De_def W_def)
  have zz: "z = (M - mu) * S" by (simp add: assms(3) fw_z_alt M_def mu_def)
  have M: "6335439 \<le> M" "M \<le> 6456753" using Mb by (simp_all add: M_def)
  have mu: "0 \<le> mu" "mu \<le> 904 / 10000000" using mub by (simp_all add: mu_def)
  have SS: "0 \<le> SS" "SS \<le> 1" using dom by (simp_all add: SS_def)
  have CDb: "\<bar>CD\<bar> \<le> 198 / 10 ^ 8" using db(1) dom(3) by (simp add: CD_def De_def M_def abs_mult)
  have Deb: "\<bar>De\<bar> \<le> 178 / 10 ^ 5" using db(2) by (simp add: De_def M_def)
  have De2: "0 \<le> De * De" "De * De \<le> 4 / 10 ^ 6"
  proof -
    have "\<bar>De\<bar> * \<bar>De\<bar> \<le> (178 / 10 ^ 5) * (178 / 10 ^ 5)"
      using Deb Deb by (rule mult_mono) simp_all
    then show "De * De \<le> 4 / 10 ^ 6" by simp
  qed simp
  have mu2: "0 \<le> mu * mu" "mu * mu \<le> 1 / 10 ^ 8"
  proof -
    have "mu * mu \<le> (904 / 10000000) * (904 / 10000000)"
      using mu(2) mu(2) _ mu(1) by (rule mult_mono) simp
    then show "mu * mu \<le> 1 / 10 ^ 8" by simp
  qed simp
  have U0: "0 \<le> U" by (simp add: U_def zhu_u_def)
  have "0 \<le> W * W + z * z" by simp
  then have U2: "U * U = W * W + z * z"
    by (simp add: U_def zhu_u_def W_def)
  have E1: "U * U - M * M = 2 * M * CD + De * De - mu * SS * (2 * M - mu)"
    unfolding CD_def SS_def using sc U2 uv zz by algebra
  have muSS: "0 \<le> mu * SS" "mu * SS \<le> 904 / 10000000"
  proof -
    show "0 \<le> mu * SS" using mu(1) SS(1) by simp
    have "mu * SS \<le> (904 / 10000000) * 1" using mu(2) SS(2) _ SS(1) by (rule mult_mono) simp
    then show "mu * SS \<le> 904 / 10000000" by simp
  qed
  have t1: "\<bar>2 * M * CD\<bar> \<le> 2 * 6456753 * (198 / 10 ^ 8)"
  proof -
    have "\<bar>2 * M\<bar> * \<bar>CD\<bar> \<le> 2 * 6456753 * (198 / 10 ^ 8)"
      using _ CDb by (rule mult_mono) (use M in simp_all)
    then show ?thesis by (simp only: abs_mult)
  qed
  have t2: "\<bar>mu * SS * (2 * M - mu)\<bar> \<le> (904 / 10000000) * (2 * 6456753)"
  proof -
    have "\<bar>2 * M - mu\<bar> \<le> 2 * 6456753" using M mu by (simp add: abs_le_iff)
    then have "\<bar>mu * SS\<bar> * \<bar>2 * M - mu\<bar> \<le> (904 / 10000000) * (2 * 6456753)"
      using muSS by (intro mult_mono) simp_all
    then show ?thesis by (simp only: abs_mult)
  qed
  have "\<bar>U * U - M * M\<bar> \<le> \<bar>2 * M * CD\<bar> + De * De + \<bar>mu * SS * (2 * M - mu)\<bar>"
    unfolding E1 using De2(1) by linarith
  also have "\<dots> \<le> 2 * 6456753 * (198 / 10 ^ 8) + 4 / 10 ^ 6 + (904 / 10000000) * (2 * 6456753)"
    using t1 t2 De2(2) by linarith
  also have "\<dots> \<le> 1194" by simp
  finally have E1b: "\<bar>U * U - M * M\<bar> \<le> 1194" .
  have xUM: "x * (U + M) = U * U - M * M" by (simp add: x_def algebra_simps)
  have UM: "6335439 \<le> U + M" using U0 M by linarith
  have xb: "\<bar>x\<bar> \<le> 2 / 10 ^ 4"
  proof -
    have "\<bar>x\<bar> * 6335439 \<le> \<bar>x\<bar> * (U + M)" using UM by (intro mult_left_mono) simp_all
    also have "\<dots> = \<bar>x * (U + M)\<bar>" using UM by (simp add: abs_mult)
    also have "\<dots> \<le> 1194" using E1b by (simp only: xUM)
    finally show ?thesis by simp
  qed
  have Ux: "U = M + x" by (simp add: x_def)
  show "6300000 \<le> zhu_u rho z" using xb M(1) unfolding U_def [symmetric] Ux by (simp add: abs_le_iff)
  have x2: "0 \<le> x * x" "x * x \<le> 4 / 10 ^ 8"
  proof -
    have "\<bar>x\<bar> * \<bar>x\<bar> \<le> (2 / 10 ^ 4) * (2 / 10 ^ 4)" using xb xb by (rule mult_mono) simp_all
    then show "x * x \<le> 4 / 10 ^ 8" by simp
  qed simp
  define eta where "eta = x - CD + mu * SS"
  have eq: "2 * M * eta = De * De + mu * mu * SS - x * x"
    unfolding eta_def using E1 unfolding Ux by algebra
  have mmS: "0 \<le> mu * mu * SS" "mu * mu * SS \<le> 1 / 10 ^ 8"
  proof -
    show "0 \<le> mu * mu * SS" using mu2(1) SS(1) by simp
    have "mu * mu * SS \<le> (1 / 10 ^ 8) * 1" using mu2(2) SS(2) _ SS(1) by (rule mult_mono) simp
    then show "mu * mu * SS \<le> 1 / 10 ^ 8" by simp
  qed
  have "\<bar>2 * M * eta\<bar> \<le> 5 / 10 ^ 6"
  proof -
    define dd where "dd = De * De"
    define ms where "ms = mu * mu * SS"
    define xx where "xx = x * x"
    have "0 \<le> dd" "dd \<le> 4 / 1000000" "0 \<le> ms" "ms \<le> 1 / 100000000"
      "0 \<le> xx" "xx \<le> 4 / 100000000"
      using De2(2) mmS x2(2) by (simp_all add: dd_def ms_def xx_def)
    then have "\<bar>dd + ms - xx\<bar> \<le> 5 / 1000000" by linarith
    then show ?thesis unfolding eq by (simp add: dd_def ms_def xx_def)
  qed
  moreover have "\<bar>2 * M * eta\<bar> = 2 * M * \<bar>eta\<bar>" using M by (simp add: abs_mult)
  moreover have "2 * 6335439 * \<bar>eta\<bar> \<le> 2 * M * \<bar>eta\<bar>"
    using M(1) by (intro mult_right_mono) simp_all
  ultimately have "2 * 6335439 * \<bar>eta\<bar> \<le> 5 / 10 ^ 6" by linarith
  then have etab: "\<bar>eta\<bar> \<le> 1 / 10 ^ 12" by simp
  have muC: "mu + x = mu * (1 - SS) + CD + eta" by (simp add: eta_def algebra_simps)
  have mC: "0 \<le> mu * (1 - SS)" "mu * (1 - SS) \<le> 904 / 10000000"
  proof -
    show "0 \<le> mu * (1 - SS)" using mu(1) SS(2) by simp
    have "mu * (1 - SS) \<le> (904 / 10000000) * 1"
      using mu(2) _ _ _ by (rule mult_mono) (use SS in simp_all)
    then show "mu * (1 - SS) \<le> 904 / 10000000" by simp
  qed
  have fin: "fw_mu S + (zhu_u rho z - fw_M S h) = mu * (1 - SS) + CD + eta"
    using muC by (simp add: mu_def x_def U_def M_def)
  show "- (199 / 10 ^ 8) \<le> fw_mu S + (zhu_u rho z - fw_M S h)"
    unfolding fin using mC CDb etab by (simp add: abs_le_iff)
  show "fw_mu S + (zhu_u rho z - fw_M S h) \<le> 9239 / 10 ^ 8"
    unfolding fin using mC CDb etab by (simp add: abs_le_iff)
qed

lemma zhu_v_bound:
  assumes "in_dom S C h" and "rho = fw_r S C h" and "z = fw_z S h"
  shows "6270000 \<le> zhu_v rho z"
proof -
  define W where "W = zhu_uv rho z"
  define U where "U = zhu_u rho z"
  note ub = zhu_u_bound [OF assms]
  have "0 \<le> W * W + z * z" by simp
  then have U2: "U * U = W * W + z * z" by (simp add: U_def zhu_u_def W_def)
  have u: "6300000 \<le> U" using ub(3) by (simp add: U_def)
  have "6300000 * 6300000 \<le> U * U"
    using u u by (rule mult_mono) (use u in simp_all)
  then have "(1 - e2 WGS84_new) * (6300000 * 6300000) \<le> (1 - e2 WGS84_new) * (U * U)"
    by (rule mult_left_mono) (simp add: WGS84_new_fields)
  also have "\<dots> = (1 - e2 WGS84_new) * (W * W) + (1 - e2 WGS84_new) * (z * z)"
    by (simp add: U2 algebra_simps)
  also have "\<dots> \<le> 1 * (W * W) + (1 - e2 WGS84_new) * (z * z)"
    by (intro add_right_mono mult_right_mono) (simp_all add: WGS84_new_fields)
  finally have "(1 - e2 WGS84_new) * (6300000 * 6300000) \<le> W * W + (1 - e2 WGS84_new) * (z * z)"
    by simp
  moreover have "6270000\<^sup>2 \<le> (1 - e2 WGS84_new) * (6300000 * 6300000)"
    by (simp add: WGS84_new_fields)
  ultimately have "6270000\<^sup>2 \<le> W * W + (1 - e2 WGS84_new) * (z * z)" by linarith
  then have "6270000 \<le> sqrt (W * W + (1 - e2 WGS84_new) * (z * z))"
    by (rule real_le_rsqrt)
  then show ?thesis by (simp add: zhu_v_def W_def)
qed

lemma alt_key:
  fixes aa AA ee nn U V W z M mu De S C :: real
  assumes "aa * aa = AA" and "nn * nn * (1 - ee * (S * S)) = AA"
    and "U * U = W * W + z * z" and "V * V = W * W + (1 - ee) * (z * z)"
    and "W = M * C + De" and "z = (M - mu) * S" and "S * S + C * C = 1"
  shows "(aa * U - nn * V) * (aa * U + nn * V)
         = - (nn * nn * ee * (S * S)
               * (2 * M * (mu * (C * C) + C * De) + De * De - mu * mu * (C * C)))"
proof -
  have "(aa * U - nn * V) * (aa * U + nn * V) = aa * aa * (U * U) - nn * nn * (V * V)"
    by (simp add: algebra_simps)
  also have "\<dots> = nn * nn * (1 - ee * (S * S)) * (W * W + z * z)
      - nn * nn * (W * W + (1 - ee) * (z * z))"
    by (simp only: assms(1) assms(2) assms(3) assms(4))
  also have "\<dots> = nn * nn * ee * (C * C * (z * z) - S * S * (W * W))"
    using assms(7) by algebra
  also have "\<dots> = - (nn * nn * ee * (S * S)
               * (2 * M * (mu * (C * C) + C * De) + De * De - mu * mu * (C * C)))"
    unfolding assms(5) assms(6) by algebra
  finally show ?thesis .
qed

lemma zhu_Z_bound:
  assumes "in_dom S C h" and "rho = fw_r S C h" and "z = fw_z S h"
  shows "\<bar>6378137 * zhu_u rho z - fw_n S * zhu_v rho z\<bar> \<le> 41 / 10"
proof -
  define M where "M = fw_M S h"
  define mu where "mu = fw_mu S"
  define W where "W = zhu_uv rho z"
  define De where "De = W - M * C"
  define U where "U = zhu_u rho z"
  define V where "V = zhu_v rho z"
  define nn where "nn = fw_n S"
  define SS where "SS = S * S"
  define CC where "CC = C * C"
  define CD where "CD = C * De"
  define Y where "Y = 2 * M * (mu * CC + CD) + De * De - mu * mu * CC"
  define Z where "Z = 6378137 * U - nn * V"
  note dom = in_dom_S2 [OF assms(1)] and Mb = fw_M_bounds [OF assms(1)]
    and mub = fw_mu_bounds [OF assms(1)] and db = zhu_uv_delta_bounds [OF assms]
    and ub = zhu_u_bound [OF assms] and vb = zhu_v_bound [OF assms]
    and nb = fw_n_bounds [OF assms(1)]
  have sc: "S * S + C * C = 1" using assms(1) by (simp add: in_dom_def)
  have uv: "W = M * C + De" by (simp add: De_def)
  have zz: "z = (M - mu) * S" by (simp add: assms(3) fw_z_alt M_def mu_def)
  have M: "6335439 \<le> M" "M \<le> 6456753" using Mb by (simp_all add: M_def)
  have mu: "0 \<le> mu" "mu \<le> 904 / 10000000" using mub by (simp_all add: mu_def)
  have SS: "0 \<le> SS" "SS \<le> 1" using dom by (simp_all add: SS_def)
  have CC: "0 \<le> CC" "CC \<le> 1" using dom by (simp_all add: CC_def)
  have CDb: "\<bar>CD\<bar> \<le> 198 / 100000000"
    using db(1) dom(3) by (simp add: CD_def De_def W_def M_def abs_mult)
  have Deb: "\<bar>De\<bar> \<le> 178 / 10 ^ 5" using db(2) by (simp add: De_def W_def M_def)
  have U: "6300000 \<le> U" using ub(3) by (simp add: U_def)
  have V: "6270000 \<le> V" using vb by (simp add: V_def)
  have n: "6378137 \<le> nn" "nn \<le> 6399594" using nb by (simp_all add: nn_def)
  have nA: "nn * nn * (1 - e2 WGS84_new * (S * S)) = a2 WGS84_new" using nb(3) by (simp add: nn_def)
  have "0 \<le> W * W + z * z" by simp
  then have U2: "U * U = W * W + z * z" by (simp add: U_def zhu_u_def W_def)
  have "0 \<le> W * W + (1 - e2 WGS84_new) * (z * z)" by (simp add: WGS84_new_fields)
  then have V2: "V * V = W * W + (1 - e2 WGS84_new) * (z * z)"
    by (simp add: V_def zhu_v_def W_def)
  have aA: "(6378137::real) * 6378137 = a2 WGS84_new" by (simp add: WGS84_new_fields)
  have key: "Z * (6378137 * U + nn * V) = - (nn * nn * e2 WGS84_new * SS * Y)"
    unfolding Z_def Y_def SS_def CC_def CD_def by (rule alt_key [OF aA nA U2 V2 uv zz sc])
  have dd: "0 \<le> De * De" "De * De \<le> 4 / 1000000"
  proof -
    have "\<bar>De\<bar> * \<bar>De\<bar> \<le> (178 / 10 ^ 5) * (178 / 10 ^ 5)"
      using Deb Deb by (rule mult_mono) simp_all
    then show "De * De \<le> 4 / 1000000" by simp
  qed simp
  have mm: "0 \<le> mu * mu * CC" "mu * mu * CC \<le> 1 / 100000000"
  proof -
    have m2: "mu * mu \<le> (904 / 10000000) * (904 / 10000000)"
      using mu(2) mu(2) _ mu(1) by (rule mult_mono) simp
    show "0 \<le> mu * mu * CC" using CC(1) by simp
    have "mu * mu * CC \<le> (904 / 10000000) * (904 / 10000000) * 1"
      using m2 CC(2) _ CC(1) by (rule mult_mono) simp
    then show "mu * mu * CC \<le> 1 / 100000000" by simp
  qed
  have mC: "0 \<le> mu * CC" "mu * CC \<le> 904 / 10000000"
  proof -
    show "0 \<le> mu * CC" using mu(1) CC(1) by simp
    have "mu * CC \<le> (904 / 10000000) * 1" using mu(2) CC(2) _ CC(1) by (rule mult_mono) simp
    then show "mu * CC \<le> 904 / 10000000" by simp
  qed
  have y1: "\<bar>2 * M * (mu * CC + CD)\<bar> \<le> 2 * 6456753 * (9238 / 100000000)"
  proof -
    have "\<bar>mu * CC + CD\<bar> \<le> 9238 / 100000000" using mC CDb by linarith
    then have "\<bar>2 * M\<bar> * \<bar>mu * CC + CD\<bar> \<le> 2 * 6456753 * (9238 / 100000000)"
      using _ _ by (rule mult_mono [rotated]) (use M in simp_all)
    then show ?thesis by (simp only: abs_mult)
  qed
  have Yb: "\<bar>Y\<bar> \<le> 1194"
  proof -
    define y where "y = 2 * M * (mu * CC + CD)"
    define d where "d = De * De"
    define q where "q = mu * mu * CC"
    have "\<bar>y\<bar> \<le> 2 * 6456753 * (9238 / 100000000)" "0 \<le> d" "d \<le> 4 / 1000000"
      "0 \<le> q" "q \<le> 1 / 100000000"
      using y1 dd(2) mm by (simp_all add: y_def d_def q_def)
    then have "\<bar>y + d - q\<bar> \<le> 1194" by linarith
    then show ?thesis by (simp add: Y_def y_def d_def q_def)
  qed
  have e: "0 \<le> e2 WGS84_new" "e2 WGS84_new \<le> 67 / 10000" by (simp_all add: WGS84_new_fields)
  have n2: "0 \<le> nn * nn" "nn * nn \<le> 6399594 * 6399594"
  proof -
    show "nn * nn \<le> 6399594 * 6399594" using n(2) n(2) by (rule mult_mono) (use n in simp_all)
  qed simp
  have rhs: "\<bar>nn * nn * e2 WGS84_new * SS * Y\<bar> \<le> 6399594 * 6399594 * (67 / 10000) * 1 * 1194"
  proof -
    have 1: "nn * nn * e2 WGS84_new \<le> 6399594 * 6399594 * (67 / 10000)"
      using n2(2) e(2) _ e(1) by (rule mult_mono) simp
    have 2: "nn * nn * e2 WGS84_new * SS \<le> 6399594 * 6399594 * (67 / 10000) * 1"
      using 1 SS(2) _ SS(1) by (rule mult_mono) simp
    have 3: "0 \<le> nn * nn * e2 WGS84_new * SS" using e(1) SS(1) by simp
    have "\<bar>nn * nn * e2 WGS84_new * SS\<bar> * \<bar>Y\<bar> \<le> 6399594 * 6399594 * (67 / 10000) * 1 * 1194"
      using _ Yb by (rule mult_mono) (use 2 3 in simp_all)
    then show ?thesis by (simp only: abs_mult)
  qed
  have den: "6378137 * 12570000 \<le> 6378137 * U + nn * V"
  proof -
    have "6378137 * 6300000 \<le> 6378137 * U" using U by simp
    moreover have "6378137 * 6270000 \<le> nn * V" using n(1) V by (rule mult_mono) (use n in simp_all)
    ultimately show ?thesis by linarith
  qed
  have "\<bar>Z\<bar> \<le> 41 / 10"
  proof -
    have "\<bar>Z\<bar> * (6378137 * 12570000) \<le> \<bar>Z\<bar> * (6378137 * U + nn * V)"
      using den by (rule mult_left_mono) simp
    also have "\<dots> = \<bar>Z * (6378137 * U + nn * V)\<bar>" using den by (simp add: abs_mult)
    also have "\<dots> \<le> 6399594 * 6399594 * (67 / 10000) * 1 * 1194"
      unfolding key using rhs by simp
    finally show ?thesis by simp
  qed
  then show ?thesis by (simp add: Z_def U_def V_def nn_def)
qed

lemma zhu_alt_bound:
  assumes "in_dom S C h" and "rho = fw_r S C h" and "z = fw_z S h"
  shows "\<bar>zhu_alt rho z - h\<bar> \<le> 95 / 10 ^ 6"
proof -
  define M where "M = fw_M S h"
  define mu where "mu = fw_mu S"
  define U where "U = zhu_u rho z"
  define V where "V = zhu_v rho z"
  define nn where "nn = fw_n S"
  define Z where "Z = 6378137 * U - nn * V"
  define T3 where "T3 = U * (b2 WGS84_new / (a WGS84_new * V)) - nn * b2 WGS84_new / a2 WGS84_new"
  note ub = zhu_u_bound [OF assms] and vb = zhu_v_bound [OF assms]
  have Zb: "\<bar>Z\<bar> \<le> 41 / 10"
    using zhu_Z_bound [OF assms] by (simp add: Z_def U_def V_def nn_def)
  have V: "6270000 \<le> V" using vb by (simp add: V_def)
  have Vp: "0 < V" using V by linarith
  have T3eq: "T3 * (40680631590769 * V) = 40408299984087.05552164 * Z"
    using Vp by (simp add: T3_def Z_def WGS84_new_fields field_simps)
  have T3b: "\<bar>T3\<bar> \<le> 1 / 1000000"
  proof -
    have "\<bar>T3\<bar> * (40680631590769 * 6270000) \<le> \<bar>T3\<bar> * (40680631590769 * V)"
      using V by (intro mult_left_mono) simp_all
    also have "\<dots> = \<bar>T3 * (40680631590769 * V)\<bar>" using Vp by (simp add: abs_mult)
    also have "\<dots> = 40408299984087.05552164 * \<bar>Z\<bar>" unfolding T3eq by (simp add: abs_mult)
    also have "\<dots> \<le> 40408299984087.05552164 * (41 / 10)" using Zb by simp
    finally show ?thesis by simp
  qed
  have hh: "h = M - mu - nn * b2 WGS84_new / a2 WGS84_new"
    by (simp add: M_def mu_def nn_def fw_M_def fw_mu_def w_D_def WGS84_new_fields field_simps)
  have "zhu_alt rho z = U - U * (b2 WGS84_new / (a WGS84_new * V))"
    by (simp add: zhu_alt_def U_def V_def algebra_simps)
  then have "zhu_alt rho z - h = (mu + (U - M)) - T3"
    unfolding T3_def using hh by simp
  moreover have "- (199 / 100000000) \<le> mu + (U - M)" "mu + (U - M) \<le> 9239 / 100000000"
    using ub(1,2) by (simp_all add: mu_def U_def M_def)
  ultimately have "\<bar>zhu_alt rho z - h\<bar> \<le> 95 / 1000000" using T3b by linarith
  then show ?thesis by simp
qed

section \<open>The recovered latitude\<close>

text \<open>
  The argument of \<^verbatim>\<open>Math.atan\<close> is the tangent of the latitude times a factor within
  \<open>1 / 10 ^ 9\<close> of 1; the difference of two arcus tangents of the same sign is at most
  \<open>\<bar>x - y\<bar> / (1 + x * y)\<close>.
\<close>

lemma arctan_le_self_unit:
  fixes w :: real
  assumes "\<bar>w\<bar> \<le> 1"
  shows "\<bar>arctan w\<bar> \<le> \<bar>w\<bar>"
proof -
  have pos: "arctan v \<le> v" if "0 \<le> v" "v \<le> 1" for v :: real
    using arctan_series_terms(2) [OF that, of 0] by simp
  show ?thesis
  proof (cases "0 \<le> w")
    case True
    then have "0 \<le> arctan w" by simp
    then show ?thesis using pos [of w] True assms by simp
  next
    case False
    then have "arctan (- w) \<le> - w" using pos [of "- w"] assms by simp
    moreover have "arctan w \<le> 0" using False by simp
    ultimately show ?thesis using False by (simp add: arctan_minus)
  qed
qed

lemma arctan_diff_bound:
  fixes x y :: real
  assumes "0 \<le> x * y" and "\<bar>x - y\<bar> \<le> 1 + x * y"
  shows "\<bar>arctan x - arctan y\<bar> \<le> \<bar>x - y\<bar> / (1 + x * y)"
proof -
  define w where "w = (x - y) / (1 + x * y)"
  have den: "0 < 1 + x * y" using assms(1) by linarith
  have w1: "\<bar>w\<bar> \<le> 1" using assms(2) den by (simp add: w_def)
  have rng: "- (pi / 2) < arctan x - arctan y \<and> arctan x - arctan y < pi / 2"
  proof -
    consider "0 \<le> x" "0 \<le> y" | "x \<le> 0" "y \<le> 0"
      using assms(1) by (auto simp add: zero_le_mult_iff)
    then show ?thesis
    proof cases
      case 1
      then have "0 \<le> arctan x" "0 \<le> arctan y" by simp_all
      then show ?thesis using arctan_ubound [of x] arctan_ubound [of y] by linarith
    next
      case 2
      then have "arctan x \<le> 0" "arctan y \<le> 0" by simp_all
      then show ?thesis using arctan_lbound [of x] arctan_lbound [of y] by linarith
    qed
  qed
  then have c: "cos (arctan x - arctan y) \<noteq> 0"
    using cos_gt_zero_pi [of "arctan x - arctan y"] by simp
  have "tan (arctan x - arctan y) = w"
    using tan_diff [OF cos_arctan_not_zero cos_arctan_not_zero c]
    by (simp add: tan_arctan w_def)
  then have "arctan w = arctan x - arctan y"
    using arctan_tan [of "arctan x - arctan y"] rng by simp
  then have "\<bar>arctan x - arctan y\<bar> \<le> \<bar>w\<bar>"
    using arctan_le_self_unit [OF w1] by simp
  also have "\<bar>w\<bar> = \<bar>x - y\<bar> / (1 + x * y)" using den by (simp add: w_def)
  finally show ?thesis .
qed

lemma abs_mult_bound:
  fixes u v P Q :: real
  assumes "\<bar>u\<bar> \<le> P" and "\<bar>v\<bar> \<le> Q"
  shows "\<bar>u * v\<bar> \<le> P * Q"
proof -
  have "0 \<le> P" using assms(1) by linarith
  then have "\<bar>u\<bar> * \<bar>v\<bar> \<le> P * Q" using assms by (intro mult_mono) simp_all
  then show ?thesis by (simp only: abs_mult)
qed

lemma lat_key:
  fixes aa AA ee kB nn M mu h U V x Z Lam :: real
  assumes "aa * aa = AA" and "M = nn * (1 - ee) + h" and "Z = aa * U - nn * V" and "x = U - M"
    and "Lam * (aa * V * (nn + h)) = (M - mu) * (aa * V + kB)"
  shows "(Lam - 1) * (nn * (aa * V * (nn + h)))
         = nn * M * (kB - ee * AA) - AA * mu * M - nn * mu * kB
           - aa * (mu + ee * nn) * (aa * x - Z)"
proof -
  have "(Lam - 1) * (nn * (aa * V * (nn + h)))
      = nn * (Lam * (aa * V * (nn + h))) - nn * (aa * V * (nn + h))"
    by (simp add: algebra_simps)
  also have "\<dots> = nn * ((M - mu) * (aa * V + kB)) - nn * (aa * V * (nn + h))"
    by (simp only: assms(5))
  also have "\<dots> = nn * M * (kB - ee * (aa * aa)) - (aa * aa) * mu * M - nn * mu * kB
           - aa * (mu + ee * nn) * (aa * x - Z)"
    unfolding assms(2) assms(3) assms(4) by algebra
  finally show ?thesis by (simp only: assms(1))
qed

lemma zhu_lat_bound:
  assumes "in_dom S C h" and "rho = fw_r S C h" and "z = fw_z S h"
  shows "\<bar>zhu_lat rho z - arctan (S / C)\<bar> \<le> 1 / 10 ^ 9"
proof -
  define M where "M = fw_M S h"
  define mu where "mu = fw_mu S"
  define U where "U = zhu_u rho z"
  define V where "V = zhu_v rho z"
  define nn where "nn = fw_n S"
  define x where "x = U - M"
  define Z where "Z = 6378137 * U - nn * V"
  define kB where "kB = ep2 WGS84_new * b2 WGS84_new"
  define Lam where "Lam = (M - mu) * (6378137 * V + kB) / (6378137 * V * (nn + h))"
  define u where "u = S / C"
  define Ta where "Ta = nn * M * (kB - e2 WGS84_new * a2 WGS84_new)"
  define Tb where "Tb = a2 WGS84_new * mu * M"
  define Tc where "Tc = nn * mu * kB"
  define Td where "Td = 6378137 * (mu + e2 WGS84_new * nn) * (6378137 * x - Z)"
  define Dn where "Dn = nn * (6378137 * V * (nn + h))"
  note dom = in_dom_S2 [OF assms(1)] and Mb = fw_M_bounds [OF assms(1)]
    and mub = fw_mu_bounds [OF assms(1)]
    and ub = zhu_u_bound [OF assms] and vb = zhu_v_bound [OF assms]
    and nb = fw_n_bounds [OF assms(1)] and Zb0 = zhu_Z_bound [OF assms]
  have h: "0 \<le> h" using assms(1) by (simp add: in_dom_def)
  have M: "6335439 \<le> M" "M \<le> 6456753" using Mb by (simp_all add: M_def)
  have mu: "0 \<le> mu" "mu \<le> 904 / 10000000" using mub by (simp_all add: mu_def)
  have V: "6270000 \<le> V" using vb by (simp add: V_def)
  have n: "6378137 \<le> nn" "nn \<le> 6399594" using nb by (simp_all add: nn_def)
  have Zb: "\<bar>Z\<bar> \<le> 41 / 10" using Zb0 by (simp add: Z_def U_def V_def nn_def)
  have xb: "\<bar>x\<bar> \<le> 1 / 10000"
  proof -
    have "- (199 / 100000000) \<le> mu + x" "mu + x \<le> 9239 / 100000000"
      using ub(1,2) by (simp_all add: mu_def x_def U_def M_def)
    then show ?thesis using mu by linarith
  qed
  have C: "0 < C" using dom(3) .
  have Vp: "0 < V" using V by linarith
  have nh: "0 < nn + h" using n h by linarith
  have D0: "6378137 * V * (nn + h) \<noteq> 0" using Vp nh by simp
  have Lam_eq: "Lam * (6378137 * V * (nn + h)) = (M - mu) * (6378137 * V + kB)"
    using D0 by (simp add: Lam_def)
  have Mn: "M = nn * (1 - e2 WGS84_new) + h" by (simp add: M_def nn_def fw_M_def)
  have aA: "(6378137::real) * 6378137 = a2 WGS84_new" by (simp add: WGS84_new_fields)
  have key: "(Lam - 1) * Dn = Ta - Tb - Tc - Td"
    unfolding Dn_def Ta_def Tb_def Tc_def Td_def
    by (rule lat_key [OF aA Mn Z_def x_def Lam_eq])
  have kBv: "0 \<le> kB" "kB \<le> 272331606104" "\<bar>kB - e2 WGS84_new * a2 WGS84_new\<bar> \<le> 4"
    by (simp_all add: kB_def WGS84_new_fields)
  have nM: "\<bar>nn * M\<bar> \<le> 6399594 * 6456753"
    by (rule abs_mult_bound) (use n M in simp_all)
  have Ta: "\<bar>Ta\<bar> \<le> 6399594 * 6456753 * 4"
    unfolding Ta_def using nM kBv(3) by (rule abs_mult_bound)
  have Tb: "\<bar>Tb\<bar> \<le> 40680631590769 * (904 / 10000000) * 6456753"
    unfolding Tb_def
    by (intro abs_mult_bound) (use mu M in \<open>simp_all add: WGS84_new_fields\<close>)
  have Tc: "\<bar>Tc\<bar> \<le> 6399594 * (904 / 10000000) * 272331606104"
    unfolding Tc_def
    by (intro abs_mult_bound) (use mu n kBv in simp_all)
  have axZ: "\<bar>6378137 * x - Z\<bar> \<le> 642"
  proof -
    have "\<bar>6378137 * x\<bar> \<le> 6378137 * (1 / 10000)" using xb by simp
    then show ?thesis using Zb by linarith
  qed
  have en: "\<bar>mu + e2 WGS84_new * nn\<bar> \<le> 42878"
  proof -
    have "\<bar>e2 WGS84_new * nn\<bar> \<le> (67 / 10000) * 6399594"
      by (rule abs_mult_bound) (use n in \<open>simp_all add: WGS84_new_fields\<close>)
    then show ?thesis using mu by linarith
  qed
  have Td: "\<bar>Td\<bar> \<le> 6378137 * 42878 * 642"
    unfolding Td_def using _ axZ
  proof (rule abs_mult_bound)
    show "\<bar>6378137 * (mu + e2 WGS84_new * nn)\<bar> \<le> 6378137 * 42878"
      using en by simp
  qed
  have "\<bar>Ta - Tb - Tc - Td\<bar> \<le> \<bar>Ta\<bar> + \<bar>Tb\<bar> + \<bar>Tc\<bar> + \<bar>Td\<bar>" by linarith
  also have "\<dots> \<le> 6399594 * 6456753 * 4 + 40680631590769 * (904 / 10000000) * 6456753
      + 6399594 * (904 / 10000000) * 272331606104 + 6378137 * 42878 * 642"
    using Ta Tb Tc Td by linarith
  also have "\<dots> \<le> 25 * 10 ^ 15" by simp
  finally have num: "\<bar>(Lam - 1) * Dn\<bar> \<le> 25 * 10 ^ 15" by (simp only: key)
  have Dnb: "6378137 * (6378137 * 6270000 * 6378137) \<le> Dn"
    unfolding Dn_def
  proof (rule mult_mono)
    show "6378137 \<le> nn" by (rule n(1))
    show "6378137 * 6270000 * 6378137 \<le> 6378137 * V * (nn + h)"
    proof (rule mult_mono)
      show "6378137 * 6270000 \<le> 6378137 * V" using V by simp
      show "6378137 \<le> nn + h" using n h by linarith
      show "0 \<le> 6378137 * V" using Vp by simp
    qed simp
    show "0 \<le> nn" using n by linarith
  qed simp
  have Lamb: "\<bar>Lam - 1\<bar> \<le> 1 / 1000000000"
  proof -
    have "\<bar>Lam - 1\<bar> * (6378137 * (6378137 * 6270000 * 6378137)) \<le> \<bar>Lam - 1\<bar> * Dn"
      using Dnb by (rule mult_left_mono) simp
    also have "\<dots> = \<bar>(Lam - 1) * Dn\<bar>" using Dnb by (simp add: abs_mult)
    also have "\<dots> \<le> 25 * 10 ^ 15" by (rule num)
    finally show ?thesis by simp
  qed
  have Lam2: "1 / 2 \<le> Lam" using Lamb by linarith
  have uu: "0 \<le> u * u" by simp
  have arg: "(z + ep2 WGS84_new * zhu_z0 rho z) / rho = Lam * u"
  proof -
    have zz: "z = (M - mu) * S" by (simp add: assms(3) fw_z_alt M_def mu_def)
    have rr: "rho = (nn + h) * C" by (simp add: assms(2) fw_r_def nn_def)
    have z0: "ep2 WGS84_new * zhu_z0 rho z = kB * z / (6378137 * V)"
      by (simp add: zhu_z0_def kB_def V_def WGS84_new_fields)
    have "(z + kB * z / (6378137 * V)) / rho = Lam * u"
      unfolding zz rr Lam_def u_def using Vp nh C by (simp add: field_simps)
    then show ?thesis by (simp only: z0)
  qed
  have au: "\<bar>u\<bar> \<le> 1 + Lam * (u * u)"
  proof -
    have "0 \<le> (\<bar>u\<bar> - 1) * (\<bar>u\<bar> - 1)" by simp
    then have "2 * \<bar>u\<bar> \<le> 1 + \<bar>u\<bar> * \<bar>u\<bar>" by (simp add: algebra_simps)
    then have 1: "\<bar>u\<bar> \<le> 1 / 2 + (1 / 2) * (u * u)" by simp
    have "(1 / 2) * (u * u) \<le> Lam * (u * u)" using Lam2 uu by (rule mult_right_mono)
    then show ?thesis using 1 by linarith
  qed
  have "0 \<le> Lam * (u * u)" using Lam2 uu by simp
  then have den: "0 < 1 + Lam * (u * u)" by linarith
  have d1: "\<bar>Lam * u - u\<bar> = \<bar>Lam - 1\<bar> * \<bar>u\<bar>"
    by (simp add: algebra_simps flip: abs_mult)
  have p0: "0 \<le> Lam * u * u" using Lam2 uu by (simp add: mult.assoc)
  have p1: "\<bar>Lam * u - u\<bar> \<le> 1 + Lam * u * u"
  proof -
    have "\<bar>Lam - 1\<bar> * \<bar>u\<bar> \<le> 1 * \<bar>u\<bar>" using Lamb by (intro mult_right_mono) simp_all
    then show ?thesis using au by (simp add: d1 mult.assoc)
  qed
  have "\<bar>arctan (Lam * u) - arctan u\<bar> \<le> \<bar>Lam * u - u\<bar> / (1 + Lam * u * u)"
    using p0 p1 by (rule arctan_diff_bound)
  also have "\<dots> = \<bar>Lam - 1\<bar> * (\<bar>u\<bar> / (1 + Lam * (u * u)))" by (simp add: d1 mult.assoc)
  also have "\<dots> \<le> \<bar>Lam - 1\<bar> * 1"
    using au den by (intro mult_left_mono) simp_all
  also have "\<dots> \<le> 1 / 10 ^ 9" using Lamb by simp
  finally show ?thesis by (simp add: zhu_lat_def arg u_def)
qed

section \<open>The round trip\<close>

text \<open>
  The longitude comes back as it went in, for \<^verbatim>\<open>Math.atan2\<close> reads it from a point in
  polar form and every longitude of the domain lies strictly between \<open>-\<pi>\<close> and \<open>\<pi>\<close>.
  The value of the round trip at sea level on the equator is computed in full.
\<close>

lemma sin_lower_600: "1 / 900 \<le> sin (1 / 600 :: real)"
proof -
  have "\<bar>sin (1 / 600 :: real) - (\<Sum>m<3. sin_coeff m * (1 / 600) ^ m)\<bar>
          \<le> inverse (fact 3) * \<bar>1 / 600\<bar> ^ 3"
    by (rule Maclaurin_sin_bound)
  moreover have "(\<Sum>m<3. sin_coeff m * (1 / 600 :: real) ^ m) = 1 / 600"
    by (simp add: lessThan_Suc eval_nat_numeral sin_coeff_def)
  ultimately have "\<bar>sin (1 / 600 :: real) - 1 / 600\<bar> \<le> inverse (fact 3) * \<bar>1 / 600\<bar> ^ 3"
    by simp
  moreover have "inverse (fact 3) * \<bar>1 / 600 :: real\<bar> ^ 3 \<le> 1 / 600 - 1 / 900"
    by (simp add: eval_nat_numeral)
  ultimately show ?thesis by linarith
qed

lemma deg2rad_values:
  "deg2rad 180 = Math_PI" "deg2rad (- 180) = - Math_PI" "deg2rad 89.9 = Math_PI / 2 - Math_PI / 1800"
  by (simp_all add: deg2rad_def)

lemma cos_lower:
  assumes "\<bar>lat\<bar> < deg2rad 89.9"
  shows "1 / 900 \<le> cos lat" and "\<bar>lat\<bar> < pi / 2"
proof -
  have P: "Math_PI < pi" by (rule Math_PI_less_pi)
  have "3 < Math_PI" by (simp add: Math_PI_def)
  then have "\<bar>lat\<bar> < Math_PI / 2 - Math_PI / 1800" using assms by (simp add: deg2rad_values)
  then have lt: "\<bar>lat\<bar> < pi / 2 - pi / 1800" using P by linarith
  have pi3: "3 < pi" using P \<open>3 < Math_PI\<close> by linarith
  show "\<bar>lat\<bar> < pi / 2" using lt pi3 by linarith
  have d: "1 / 600 \<le> pi / 2 - \<bar>lat\<bar>" using lt pi3 by linarith
  have "sin (1 / 600) \<le> sin (pi / 2 - \<bar>lat\<bar>)"
    using _ d by (rule sin_monotone_2pi_le) (use pi3 in simp_all)
  moreover have "sin (pi / 2 - \<bar>lat\<bar>) = cos lat"
    using cos_sin_eq [of "\<bar>lat\<bar>"] by simp
  ultimately show "1 / 900 \<le> cos lat" using sin_lower_600 by linarith
qed

lemma in_dom_geodetic:
  assumes "\<bar>lat\<bar> < deg2rad 89.9" and "0 \<le> alt" and "alt \<le> 100000"
  shows "in_dom (sin lat) (cos lat) alt"
  using cos_lower(1) [OF assms(1)] assms(2,3) sin_cos_squared_add [of lat]
  by (simp add: in_dom_def power2_eq_square)

lemma polar_norm:
  fixes k t :: real
  shows "(k * cos t) * (k * cos t) + (k * sin t) * (k * sin t) = k * k"
proof -
  have "(k * cos t) * (k * cos t) + (k * sin t) * (k * sin t)
      = k * k * (cos t * cos t + sin t * sin t)"
    by (simp only: algebra_simps)
  moreover have "cos t * cos t + sin t * sin t = 1"
    using sin_cos_squared_add2 [of t] by (simp only: power2_eq_square)
  ultimately show ?thesis by simp
qed

lemma atan2_polar:
  fixes rho lon :: real
  assumes "0 < rho" and "- pi < lon" and "lon < pi"
  shows "Math_atan2 (rho * sin lon) (rho * cos lon) = Some lon"
proof -
  consider (mid) "- (pi / 2) < lon" "lon < pi / 2"
    | (up) "lon = pi / 2" | (down) "lon = - (pi / 2)"
    | (left_up) "pi / 2 < lon" | (left_down) "lon < - (pi / 2)"
    by linarith
  then show ?thesis
  proof cases
    case mid
    then have c: "0 < cos lon" by (simp add: cos_gt_zero_pi)
    then have "0 < rho * cos lon" using assms by simp
    moreover have "rho * sin lon / (rho * cos lon) = tan lon"
      using assms by (simp add: tan_def)
    ultimately show ?thesis using mid by (simp add: Math_atan2_def arctan_tan)
  next
    case up
    have "sin lon = 1" and "cos lon = 0" unfolding up by simp_all
    then have "Math_atan2 (rho * sin lon) (rho * cos lon) = Some (pi / 2)"
      using assms(1) by (simp add: Math_atan2_def)
    then show ?thesis unfolding up .
  next
    case down
    have "sin lon = - 1" and "cos lon = 0" unfolding down by simp_all
    then have "Math_atan2 (rho * sin lon) (rho * cos lon) = Some (- (pi / 2))"
      using assms(1) by (simp add: Math_atan2_def)
    then show ?thesis unfolding down .
  next
    case left_up
    have "0 < cos (lon - pi)" using left_up assms by (intro cos_gt_zero_pi) simp_all
    moreover have "cos (lon - pi) = - cos lon" by simp
    ultimately have cneg: "cos lon < 0" by linarith
    have "0 < sin (pi - lon)" using left_up assms by (intro sin_gt_zero) simp_all
    moreover have "sin (pi - lon) = sin lon" by simp
    ultimately have spos: "0 < sin lon" by linarith
    have "tan (lon - pi) = tan lon" by (simp add: tan_def)
    then have t: "rho * sin lon / (rho * cos lon) = tan (lon - pi)"
      using assms by (simp add: tan_def)
    have "arctan (tan (lon - pi)) = lon - pi" using left_up assms by (intro arctan_tan) simp_all
    moreover have "rho * cos lon < 0" using cneg assms(1) by (rule mult_pos_neg [rotated])
    moreover have "0 < rho * sin lon" using spos assms(1) by simp
    ultimately show ?thesis using t by (simp add: Math_atan2_def)
  next
    case left_down
    have "0 < cos (lon + pi)" using left_down assms by (intro cos_gt_zero_pi) simp_all
    moreover have "cos (lon + pi) = - cos lon" by simp
    ultimately have cneg: "cos lon < 0" by linarith
    have "0 < sin (lon + pi)" using left_down assms by (intro sin_gt_zero) simp_all
    moreover have "sin (lon + pi) = - sin lon" by simp
    ultimately have sneg: "sin lon < 0" by linarith
    have "tan (lon + pi) = tan lon" by (simp add: tan_def)
    then have t: "rho * sin lon / (rho * cos lon) = tan (lon + pi)"
      using assms by (simp add: tan_def)
    have "arctan (tan (lon + pi)) = lon + pi" using left_down assms by (intro arctan_tan) simp_all
    moreover have "rho * cos lon < 0" using cneg assms(1) by (rule mult_pos_neg [rotated])
    moreover have "rho * sin lon < 0" using sneg assms(1) by (rule mult_pos_neg [rotated])
    ultimately show ?thesis using t by (simp add: Math_atan2_def)
  qed
qed

lemma geo2wgs_meridian:
  "geo2wgs WGS84_new lat lon alt =
     [fw_r (sin lat) (cos lat) alt * cos lon, fw_r (sin lat) (cos lat) alt * sin lon,
      fw_z (sin lat) alt]"
  by (simp add: geo2wgs_def Let_def fw_r_def fw_z_def fw_n_def)

lemma wgs2geo_in_dom:
  assumes "in_dom S C h" and "rho = fw_r S C h" and "z = fw_z S h"
    and "sqrt (x * x + y * y) = rho"
  shows "wgs2geo WGS84_new x y z
           = map_option (\<lambda>lon. [zhu_lat rho z, lon, zhu_alt rho z]) (Math_atan2 y x)"
proof -
  note g = zhu_g_bounds [OF assms(1-3)] and c = zhu_c_bounds [OF assms(1-3)]
    and p0 = zhu_p0_facts [OF assms(1-3)] and rel = zhu_relations [OF assms(1-3)]
    and rad = zhu_rad_pos [OF assms(1-3)] and v = zhu_v_bound [OF assms(1-3)]
    and r = fw_r_bounds [OF assms(1)]
  have g0: "0 < zhu_g rho z" using g(1) by simp
  have g1: "\<not> zhu_g rho z * zhu_g rho z * zhu_g rho z = 0" using g0 by simp
  have c0: "0 \<le> zhu_c rho z * zhu_c rho z + 2 * zhu_c rho z" using c(1) by simp
  then have g2: "\<not> zhu_c rho z * zhu_c rho z + 2.0 * zhu_c rho z < 0" by simp
  have g3: "\<not> 1.0 + zhu_c rho z
      + sqrt (zhu_c rho z * zhu_c rho z + 2.0 * zhu_c rho z) \<le> 0"
  proof -
    define sq where "sq = sqrt (zhu_c rho z * zhu_c rho z + 2 * zhu_c rho z)"
    have "0 \<le> sq" using c0 by (simp add: sq_def)
    then have "\<not> 1 + zhu_c rho z + sq \<le> 0" using c(1) by linarith
    then show ?thesis by (simp add: sq_def)
  qed
  have g4: "\<not> zhu_s rho z = 0" using p0(1) by auto
  have p00: "0 < zhu_p0 rho z" using p0(2) by linarith
  have g5: "\<not> 3.0 * zhu_p0 rho z * zhu_p0 rho z * zhu_g rho z * zhu_g rho z = 0"
    using p00 g0 by simp
  have "0 \<le> 2 * (e2 WGS84_new * e2 WGS84_new) * zhu_p rho z" using rel(1) by simp
  then have g6: "\<not> 1.0 + 2.0 * (e2 WGS84_new * e2 WGS84_new) * zhu_p rho z < 0" by simp
  have q0: "0 < zhu_q rho z" using rel(2) by linarith
  have g7: "\<not> 1.0 + zhu_q rho z = 0" using q0 by simp
  have g8: "\<not> zhu_q rho z = 0" using q0 by simp
  have "0 < zhu_q rho z * zhu_q rho z" using q0 by simp
  then have g9: "\<not> zhu_q rho z + zhu_q rho z * zhu_q rho z = 0" using q0 by linarith
  have g10: "\<not> zhu_rad rho z < 0" using rad by simp
  have "0 \<le> zhu_uv rho z * zhu_uv rho z + (1 - e2 WGS84_new) * (z * z)"
    by (simp add: WGS84_new_fields)
  then have g11: "\<not> zhu_uv rho z * zhu_uv rho z + (1.0 - e2 WGS84_new) * (z * z) < 0"
    by simp
  have g12: "\<not> a WGS84_new * zhu_v rho z = 0" using v by (simp add: WGS84_new_fields)
  have g13: "\<not> rho = 0" using r(3) by (simp add: assms(2))
  show ?thesis
    unfolding wgs2geo_zhu assms(4)
    by (simp only: g1 g2 g3 g4 g5 g6 g7 g8 g9 g10 g11 g12 g13 simp_thms if_False)
qed

lemma roundtrip_value:
  assumes "in_dom (sin lat) (cos lat) alt" and "- pi < lon" and "lon < pi"
  shows "roundtrip WGS84_new lat lon alt =
    Some [zhu_lat (fw_r (sin lat) (cos lat) alt) (fw_z (sin lat) alt), lon,
          zhu_alt (fw_r (sin lat) (cos lat) alt) (fw_z (sin lat) alt)]"
proof -
  define rho where "rho = fw_r (sin lat) (cos lat) alt"
  define z where "z = fw_z (sin lat) alt"
  have rp: "0 < rho" using fw_r_bounds(3) [OF assms(1)] by (simp add: rho_def)
  have "(rho * cos lon) * (rho * cos lon) + (rho * sin lon) * (rho * sin lon) = rho * rho"
    by (rule polar_norm)
  then have rt: "sqrt ((rho * cos lon) * (rho * cos lon) + (rho * sin lon) * (rho * sin lon)) = rho"
    using rp by (simp only: real_sqrt_abs2)
  have "roundtrip WGS84_new lat lon alt = wgs2geo WGS84_new (rho * cos lon) (rho * sin lon) z"
    by (simp add: roundtrip_def geo2wgs_meridian Let_def rho_def z_def)
  also have "\<dots> = map_option (\<lambda>lon. [zhu_lat rho z, lon, zhu_alt rho z])
                      (Math_atan2 (rho * sin lon) (rho * cos lon))"
    using assms(1) rho_def z_def rt by (rule wgs2geo_in_dom)
  also have "\<dots> = Some [zhu_lat rho z, lon, zhu_alt rho z]"
    by (simp add: atan2_polar [OF rp assms(2,3)])
  finally show ?thesis by (simp add: rho_def z_def)
qed

lemma zhu_equator:
  "zhu_lat 6378137 0 = 0"
  "zhu_alt 6378137 0 = 28722166381249117 / 318906850000000000000"
proof -
  have f: "zhu_f 0 = 0" by (simp add: zhu_f_def)
  have c: "zhu_c 6378137 0 = 0" by (simp add: zhu_c_def f)
  have s: "zhu_s 6378137 0 = 1" by (simp add: zhu_s_def c)
  have p0: "zhu_p0 6378137 0 = 3" by (simp add: zhu_p0_def s)
  have p: "zhu_p 6378137 0 = 0" by (simp add: zhu_p_def f)
  have q: "zhu_q 6378137 0 = 1" by (simp add: zhu_q_def p)
  have rad: "zhu_rad 6378137 0 = 6378137 * 6378137"
    by (simp add: zhu_rad_def p q WGS84_new_fields)
  have "sqrt (6378137 * 6378137) = \<bar>6378137 :: real\<bar>" by (simp only: real_sqrt_abs2)
  then have r0: "zhu_r0 6378137 0 = 6378137" by (simp add: zhu_r0_def p rad)
  have uv: "zhu_uv 6378137 0 = 6378137 - 0.00669437999014 * 6378137"
    by (simp add: zhu_uv_def r0 WGS84_new_fields)
  define w :: real where "w = 6378137 - 0.00669437999014 * 6378137"
  have w: "0 < w" by (simp add: w_def)
  have sq: "sqrt (w * w) = w" using w by (simp only: real_sqrt_abs2)
  have "zhu_u 6378137 0 = sqrt (w * w + 0 * 0)" unfolding zhu_u_def uv w_def ..
  then have u: "zhu_u 6378137 0 = w" using sq by simp
  have "zhu_v 6378137 0 = sqrt (w * w + (1.0 - e2 WGS84_new) * (0 * 0))"
    unfolding zhu_v_def uv w_def ..
  then have v: "zhu_v 6378137 0 = w" using sq by simp
  show "zhu_lat 6378137 0 = 0" by (simp add: zhu_lat_def zhu_z0_def)
  have "zhu_alt 6378137 0 = w * (1 - 40408299984087.05552164 / (6378137 * w))"
    by (simp add: zhu_alt_def u v WGS84_new_fields)
  also have "\<dots> = w - 40408299984087.05552164 / 6378137"
    using w by (simp add: field_simps)
  also have "\<dots> = 28722166381249117 / 318906850000000000000" by (simp add: w_def)
  finally show "zhu_alt 6378137 0 = 28722166381249117 / 318906850000000000000" .
qed

lemma roundtrip_equator:
  assumes "- pi < lon" and "lon < pi"
  shows "roundtrip WGS84_new 0 lon 0
           = Some [0, lon, 28722166381249117 / 318906850000000000000]"
proof -
  have d: "in_dom (sin 0) (cos 0) 0" by (simp add: in_dom_def)
  have r: "fw_r 0 1 0 = 6378137" "fw_z 0 0 = 0"
    by (simp_all add: fw_r_def fw_z_def fw_n_def WGS84_new_fields)
  have "roundtrip WGS84_new 0 lon 0 = Some [zhu_lat (fw_r 0 1 0) (fw_z 0 0), lon,
          zhu_alt (fw_r 0 1 0) (fw_z 0 0)]"
    using roundtrip_value [OF d assms] by simp
  then show ?thesis by (simp only: r zhu_equator)
qed

lemma deg2rad_180_range: "- pi < deg2rad (- 180)" "deg2rad (- 180) < pi"
proof -
  have "Math_PI < pi" by (rule Math_PI_less_pi)
  moreover have "0 < Math_PI" by (simp add: Math_PI_def)
  ultimately show "- pi < deg2rad (- 180)" "deg2rad (- 180) < pi"
    by (simp_all add: deg2rad_values)
qed

section \<open>Claims on the WGS84 transforms\<close>

text \<open>
  C6, as the specification states it: for every geodetic coordinate with
  \<open>\<bar>lat\<bar> < 89.9\<close> degrees, longitude between \<open>-180\<close> and \<open>180\<close> degrees and altitude
  between 0 and 100000 m, \<^verbatim>\<open>wgs2geo(geo2wgs(lat, lon, alt))\<close> recovers the latitude and
  the longitude to within \<open>1e-8\<close> radians and the altitude to within \<open>1e-6\<close> m. This fails
  for the altitude: at latitude, longitude and altitude zero the round trip gives back
  the altitude \<open>a - e2 * a - b2 / a\<close>, about \<open>9.0e-5\<close> m, since the fields \<^verbatim>\<open>b2\<close> and
  \<^verbatim>\<open>e2\<close> of the constructor do not satisfy \<open>b2 = a2 * (1 - e2)\<close> exactly.
\<close>

theorem roundtrip_altitude_counterexample:
  "\<bar>0\<bar> < deg2rad 89.9 \<and> deg2rad (- 180) \<le> 0 \<and> 0 \<le> deg2rad 180
   \<and> (0 :: real) \<le> 0 \<and> (0 :: real) \<le> 100000
   \<and> roundtrip WGS84_new 0 0 0 = Some [0, 0, 28722166381249117 / 318906850000000000000]
   \<and> \<not> \<bar>28722166381249117 / 318906850000000000000 - (0 :: real)\<bar> \<le> 1 / 10 ^ 6"
proof -
  have "roundtrip WGS84_new 0 0 0 = Some [0, 0, 28722166381249117 / 318906850000000000000]"
    by (rule roundtrip_equator) simp_all
  then show ?thesis by (simp add: deg2rad_def Math_PI_def)
qed

text \<open>
  C6, amended in the tolerance of the altitude only: on the whole domain of the
  specification, both ends of the range of the longitude included, the round trip
  returns a result, and it recovers the latitude and the longitude to within \<open>1e-8\<close>
  radians and the altitude to within \<open>1e-4\<close> m.
\<close>

theorem roundtrip_within_tolerance:
  assumes "\<bar>lat\<bar> < deg2rad 89.9" and "deg2rad (- 180) \<le> lon" and "lon \<le> deg2rad 180"
    and "0 \<le> alt" and "alt \<le> 100000"
  shows "\<exists>lat' lon' alt'. roundtrip WGS84_new lat lon alt = Some [lat', lon', alt']
           \<and> \<bar>lat' - lat\<bar> < 1 / 10 ^ 8 \<and> \<bar>lon' - lon\<bar> < 1 / 10 ^ 8
           \<and> \<bar>alt' - alt\<bar> < 1 / 10 ^ 4"
proof -
  define rho where "rho = fw_r (sin lat) (cos lat) alt"
  define z where "z = fw_z (sin lat) alt"
  have d: "in_dom (sin lat) (cos lat) alt" using assms(1,4,5) by (rule in_dom_geodetic)
  have P: "Math_PI < pi" by (rule Math_PI_less_pi)
  have lon: "- pi < lon" "lon < pi" using assms(2,3) P by (simp_all add: deg2rad_values)
  have v: "roundtrip WGS84_new lat lon alt = Some [zhu_lat rho z, lon, zhu_alt rho z]"
    unfolding rho_def z_def using d lon by (rule roundtrip_value)
  have l2: "\<bar>lat\<bar> < pi / 2" using assms(1) by (rule cos_lower(2))
  then have "arctan (tan lat) = lat" by (intro arctan_tan) simp_all
  then have "arctan (sin lat / cos lat) = lat" by (simp add: tan_def)
  then have "\<bar>zhu_lat rho z - lat\<bar> \<le> 1 / 10 ^ 9"
    using zhu_lat_bound [OF d rho_def z_def] by simp
  then have 1: "\<bar>zhu_lat rho z - lat\<bar> < 1 / 10 ^ 8" by simp
  have "\<bar>zhu_alt rho z - alt\<bar> \<le> 95 / 10 ^ 6" using d rho_def z_def by (rule zhu_alt_bound)
  then have 2: "\<bar>zhu_alt rho z - alt\<bar> < 1 / 10 ^ 4" by simp
  show ?thesis using v 1 2 by simp
qed

theorem roundtrip_within_tolerance_witness:
  "\<bar>0\<bar> < deg2rad 89.9 \<and> deg2rad (- 180) \<le> deg2rad (- 180)
   \<and> deg2rad (- 180) \<le> deg2rad 180 \<and> (0 :: real) \<le> 0 \<and> (0 :: real) \<le> 100000
   \<and> (\<exists>lat' lon' alt'. roundtrip WGS84_new 0 (deg2rad (- 180)) 0 = Some [lat', lon', alt']
           \<and> \<bar>lat' - 0\<bar> < 1 / 10 ^ 8 \<and> \<bar>lon' - deg2rad (- 180)\<bar> < 1 / 10 ^ 8
           \<and> \<bar>alt' - 0\<bar> < 1 / 10 ^ 4)
   \<and> roundtrip WGS84_new 0 (deg2rad (- 180)) 0
         = Some [0, deg2rad (- 180), 28722166381249117 / 318906850000000000000]"
proof -
  have h: "\<bar>0\<bar> < deg2rad 89.9" "deg2rad (- 180) \<le> deg2rad (- 180)"
    "deg2rad (- 180) \<le> deg2rad 180" "(0 :: real) \<le> 0" "(0 :: real) \<le> 100000"
    by (simp_all add: deg2rad_def Math_PI_def)
  have v: "roundtrip WGS84_new 0 (deg2rad (- 180)) 0
         = Some [0, deg2rad (- 180), 28722166381249117 / 318906850000000000000]"
    using deg2rad_180_range by (rule roundtrip_equator)
  from roundtrip_within_tolerance [OF h] h v show ?thesis by blast
qed

text \<open>
  C9. At latitude, longitude and altitude zero the forward transform returns
  \<open>x = 6378137\<close>, the equatorial radius \<open>a\<close> of the constructor, and \<open>y = 0\<close>,
  \<open>z = 0\<close>.
\<close>

theorem geo2wgs_origin:
  "geo2wgs WGS84_new 0 0 0 = [6378137, 0, 0] \<and> a WGS84_new = 6378137"
  by (simp add: geo2wgs_def WGS84_new_def)

end
